theory Spec2Isabelle
  imports Complex_Main
begin

section \<open>JavaScript strings\<close>

text \<open>
  A JavaScript string is a sequence of UTF-16 code units and \<^verbatim>\<open>length\<close> counts them. The
  model's \<^typ>\<open>string\<close> is a list of 8-bit characters, read as the code units 0 to 255
  (Latin-1): every function below is what the JavaScript built-in does on such strings.
\<close>

text \<open>
  White space and line terminators (\<^verbatim>\<open>\s\<close> in a regular expression, and what \<^verbatim>\<open>trim\<close>
  strips): TAB, LF, VT, FF, CR, SPACE and NBSP are the ones below code unit 256.
\<close>

definition isWhiteSpace :: "char \<Rightarrow> bool" where
  "isWhiteSpace c = (c \<in> set [CHR 0x09, CHR 0x0A, CHR 0x0B, CHR 0x0C, CHR 0x0D, CHR 0x20, CHR 0xA0])"

text \<open>The class \<^verbatim>\<open>\w\<close>: letters, digits and the underscore of ASCII.\<close>

definition isWordChar :: "char \<Rightarrow> bool" where
  "isWordChar c = (c \<in> set ''abcdefghijklmnopqrstuvwxyzABCDEFGHIJKLMNOPQRSTUVWXYZ0123456789_'')"

text \<open>The class \<^verbatim>\<open>[a-zA-Z0-9_-]\<close> of the video id.\<close>

definition isIdChar :: "char \<Rightarrow> bool" where
  "isIdChar c = (c \<in> set ''abcdefghijklmnopqrstuvwxyzABCDEFGHIJKLMNOPQRSTUVWXYZ0123456789_-'')"

text \<open>The class \<^verbatim>\<open>[.!?]\<close> of the sentence terminators and \<^verbatim>\<open>[?&]\<close> of the query separators.\<close>

definition isTerminator :: "char \<Rightarrow> bool" where
  "isTerminator c = (c \<in> set ''.!?'')"

definition isQuerySep :: "char \<Rightarrow> bool" where
  "isQuerySep c = (c \<in> set ''?&'')"

text \<open>The dot of a regular expression: every code unit but a line terminator.\<close>

definition isDot :: "char \<Rightarrow> bool" where
  "isDot c = (c \<notin> set [CHR 0x0A, CHR 0x0D])"

text \<open>\<^verbatim>\<open>String.prototype.trim\<close>.\<close>

definition trim :: "string \<Rightarrow> string" where
  "trim s = rev (dropWhile isWhiteSpace (rev (dropWhile isWhiteSpace s)))"

text \<open>
  \<^verbatim>\<open>String.prototype.toLowerCase\<close>: below code unit 256 the upper-case letters are A to Z and
  U+00C0 to U+00DE without the multiplication sign U+00D7, each 32 below its lower-case
  letter.
\<close>

definition toLowerCase_unit :: "char \<Rightarrow> char" where
  "toLowerCase_unit c =
     (let n = of_char c :: nat
      in if (65 \<le> n \<and> n \<le> 90) \<or> (192 \<le> n \<and> n \<le> 222 \<and> n \<noteq> 215)
         then char_of (n + 32) else c)"

definition toLowerCase :: "string \<Rightarrow> string" where
  "toLowerCase s = map toLowerCase_unit s"

text \<open>
  \<^verbatim>\<open>String.prototype.split\<close> with a separator pattern of the form \<^verbatim>\<open>[class]+\<close>, the only form
  the program splits on. The built-in scans from the end \<^verbatim>\<open>p\<close> of the last separator: at the
  first index \<^verbatim>\<open>q\<close> where the pattern matches (greedily, so the whole run of class characters)
  it emits the substring from \<^verbatim>\<open>p\<close> to \<^verbatim>\<open>q\<close> and continues behind the run; at the end it
  emits the rest, empty or not. The empty string splits into one empty string.
\<close>

function split_scan :: "(char \<Rightarrow> bool) \<Rightarrow> string \<Rightarrow> string \<Rightarrow> string list" where
  "split_scan sep cur [] = [cur]"
| "split_scan sep cur (c # cs) =
     (if sep c then cur # split_scan sep [] (dropWhile sep cs)
      else split_scan sep (cur @ [c]) cs)"
  by pat_completeness auto
termination
  by (relation "measure (\<lambda>(sep, cur, s). length s)")
     (auto intro: le_imp_less_Suc length_dropWhile_le)

definition split_on :: "(char \<Rightarrow> bool) \<Rightarrow> string \<Rightarrow> string list" where
  "split_on sep s = split_scan sep [] s"

text \<open>\<^verbatim>\<open>Array.prototype.join\<close>: the elements with the separator between them.\<close>

fun join_with :: "string \<Rightarrow> string list \<Rightarrow> string" where
  "join_with sep [] = []"
| "join_with sep [x] = x"
| "join_with sep (x # y # ys) = x @ sep @ join_with sep (y # ys)"

text \<open>\<^verbatim>\<open>Array.prototype.slice(0, k)\<close> for a count \<^verbatim>\<open>k\<close> that is not negative.\<close>

definition slice0 :: "nat \<Rightarrow> 'a list \<Rightarrow> 'a list" where
  "slice0 k xs = take k xs"

text \<open>
  \<^verbatim>\<open>encodeURIComponent\<close>: the unreserved characters stay, every other code unit is written as
  the bytes of its UTF-8 encoding, each as \<^verbatim>\<open>%\<close> and two upper-case hexadecimal digits. A code
  unit from 128 to 255 has the two bytes \<^verbatim>\<open>0xC0 + n div 64\<close> and \<^verbatim>\<open>0x80 + n mod 64\<close>.
\<close>

definition isUnreserved :: "char \<Rightarrow> bool" where
  "isUnreserved c = (c \<in> set
     ''abcdefghijklmnopqrstuvwxyzABCDEFGHIJKLMNOPQRSTUVWXYZ0123456789-_.!~*'' \<or> c \<in> set [CHR 0x27, CHR ''('', CHR '')''])"

definition hex_digit :: "nat \<Rightarrow> char" where
  "hex_digit n = ''0123456789ABCDEF'' ! (n mod 16)"

definition percent_byte :: "nat \<Rightarrow> string" where
  "percent_byte b = [CHR ''%'', hex_digit (b div 16), hex_digit b]"

definition encode_unit :: "char \<Rightarrow> string" where
  "encode_unit c =
     (let n = of_char c :: nat
      in if isUnreserved c then [c]
         else if n < 128 then percent_byte n
         else percent_byte (192 + n div 64) @ percent_byte (128 + n mod 64))"

definition encodeURIComponent :: "string \<Rightarrow> string" where
  "encodeURIComponent s = concat (map encode_unit s)"

section \<open>Regular expressions\<close>

text \<open>
  The fragment of the regular-expression language the program's literals use. A match is
  searched by backtracking: \<open>rmatch r s\<close> lists, in the order the backtracking tries them,
  the ways \<open>r\<close> matches a prefix of \<open>s\<close>, each as the captures of the groups of \<open>r\<close> (in
  the order of their opening parentheses, \<open>None\<close> for a group that took no part) and the
  rest of \<open>s\<close> behind the match. The head of the list is the match \<^verbatim>\<open>regex_exec\<close> reports.
\<close>

datatype regex =
    Lit string                  \<comment> \<open>the characters themselves\<close>
  | LitI string                 \<comment> \<open>the same under the flag \<^verbatim>\<open>i\<close>\<close>
  | Cls "char \<Rightarrow> bool"           \<comment> \<open>one character of a class\<close>
  | ClsPlus "char \<Rightarrow> bool"       \<comment> \<open>\<^verbatim>\<open>[class]+\<close>, greedy\<close>
  | ClsRep "char \<Rightarrow> bool" nat    \<comment> \<open>\<^verbatim>\<open>[class]{n}\<close>\<close>
  | Seq regex regex
  | Alt regex regex             \<comment> \<open>\<^verbatim>\<open>a|b\<close>, the left one first\<close>
  | Opt regex                   \<comment> \<open>\<^verbatim>\<open>a?\<close>, greedy\<close>
  | Grp regex                   \<comment> \<open>a capture group\<close>

fun strip_prefix :: "string \<Rightarrow> string \<Rightarrow> string option" where
  "strip_prefix [] s = Some s"
| "strip_prefix (c # l) [] = None"
| "strip_prefix (c # l) (d # s) = (if c = d then strip_prefix l s else None)"

text \<open>
  Under the flag \<^verbatim>\<open>i\<close> two code units match when their canonical forms agree: the upper-case
  letter where it is a single code unit, except that a unit from 128 on never becomes ASCII.
\<close>

definition canonicalize :: "char \<Rightarrow> nat" where
  "canonicalize c =
     (let n = of_char c :: nat
      in if (97 \<le> n \<and> n \<le> 122) \<or> (224 \<le> n \<and> n \<le> 254 \<and> n \<noteq> 247) then n - 32
         else if n = 255 then 376
         else if n = 181 then 924
         else n)"

fun strip_prefix_i :: "string \<Rightarrow> string \<Rightarrow> string option" where
  "strip_prefix_i [] s = Some s"
| "strip_prefix_i (c # l) [] = None"
| "strip_prefix_i (c # l) (d # s) =
     (if canonicalize c = canonicalize d then strip_prefix_i l s else None)"

fun ngroups :: "regex \<Rightarrow> nat" where
  "ngroups (Seq a b) = ngroups a + ngroups b"
| "ngroups (Alt a b) = ngroups a + ngroups b"
| "ngroups (Opt a) = ngroups a"
| "ngroups (Grp a) = Suc (ngroups a)"
| "ngroups _ = 0"

text \<open>The rests behind one or more class characters, the longest run first.\<close>

fun plus_rests :: "(char \<Rightarrow> bool) \<Rightarrow> string \<Rightarrow> string list" where
  "plus_rests p [] = []"
| "plus_rests p (c # cs) = (if p c then plus_rests p cs @ [cs] else [])"

fun rmatch :: "regex \<Rightarrow> string \<Rightarrow> (string option list \<times> string) list" where
  "rmatch (Lit l) s = (case strip_prefix l s of None \<Rightarrow> [] | Some rest \<Rightarrow> [([], rest)])"
| "rmatch (LitI l) s = (case strip_prefix_i l s of None \<Rightarrow> [] | Some rest \<Rightarrow> [([], rest)])"
| "rmatch (Cls p) s = (case s of [] \<Rightarrow> [] | c # rest \<Rightarrow> if p c then [([], rest)] else [])"
| "rmatch (ClsPlus p) s = map (Pair []) (plus_rests p s)"
| "rmatch (ClsRep p n) s =
     (if n \<le> length s \<and> list_all p (take n s) then [([], drop n s)] else [])"
| "rmatch (Seq a b) s =
     concat (map (\<lambda>(ga, mid). map (\<lambda>(gb, rest). (ga @ gb, rest)) (rmatch b mid)) (rmatch a s))"
| "rmatch (Alt a b) s =
     map (\<lambda>(g, rest). (g @ replicate (ngroups b) None, rest)) (rmatch a s)
     @ map (\<lambda>(g, rest). (replicate (ngroups a) None @ g, rest)) (rmatch b s)"
| "rmatch (Opt a) s = rmatch a s @ [(replicate (ngroups a) None, s)]"
| "rmatch (Grp a) s =
     map (\<lambda>(g, rest). (Some (take (length s - length rest) s) # g, rest)) (rmatch a s)"

text \<open>
  A pattern is a regular expression that starts with \<^verbatim>\<open>^\<close> or one that does not.
  \<open>regex_exec\<close> is \<^verbatim>\<open>RegExp.prototype.exec\<close> on a pattern without the flag \<^verbatim>\<open>g\<close>: it tries the start
  positions from the left (only position 0 under \<^verbatim>\<open>^\<close>) and answers the groups of the first
  match, or nothing. \<^verbatim>\<open>pattern.test(s)\<close> asks whether there is a match, and \<^verbatim>\<open>s.match(pattern)\<close>
  is \<open>regex_exec\<close>, where \<^verbatim>\<open>match[1]\<close> is the first group.
\<close>

datatype pattern = Anchored regex | Anywhere regex

fun seqs :: "regex list \<Rightarrow> regex" where
  "seqs [] = Lit []"
| "seqs [r] = r"
| "seqs (r # rs) = Seq r (seqs rs)"

fun scan :: "regex \<Rightarrow> string \<Rightarrow> string option list option" where
  "scan r [] = (case rmatch r [] of [] \<Rightarrow> None | (g, rest) # _ \<Rightarrow> Some g)"
| "scan r (c # cs) = (case rmatch r (c # cs) of [] \<Rightarrow> scan r cs | (g, rest) # _ \<Rightarrow> Some g)"

fun regex_exec :: "pattern \<Rightarrow> string \<Rightarrow> string option list option" where
  "regex_exec (Anchored r) s = (case rmatch r s of [] \<Rightarrow> None | (g, rest) # _ \<Rightarrow> Some g)"
| "regex_exec (Anywhere r) s = scan r s"

definition regex_test :: "pattern \<Rightarrow> string \<Rightarrow> bool" where
  "regex_test p s = (regex_exec p s \<noteq> None)"

section \<open>URL validation and parsing\<close>

text \<open>
  \<^verbatim>\<open>/^https?:\/\/(www\.)?(youtube\.com\/watch\?v=|youtu\.be\/)([a-zA-Z0-9_-]{11})/\<close> and
  \<^verbatim>\<open>/^https?:\/\/(www\.)?youtube\.com\/embed\/([a-zA-Z0-9_-]{11})/\<close>
\<close>

definition youtube_url_patterns :: "pattern list" where
  "youtube_url_patterns =
     [Anchored (seqs [Lit ''http'', Opt (Lit ''s''), Lit ''://'', Opt (Grp (Lit ''www.'')),
                      Grp (Alt (Lit ''youtube.com/watch?v='') (Lit ''youtu.be/'')),
                      Grp (ClsRep isIdChar 11)]),
      Anchored (seqs [Lit ''http'', Opt (Lit ''s''), Lit ''://'', Opt (Grp (Lit ''www.'')),
                      Lit ''youtube.com/embed/'', Grp (ClsRep isIdChar 11)])]"

definition isValidYouTubeURL :: "string \<Rightarrow> bool" where
  "isValidYouTubeURL url = list_ex (\<lambda>pattern. regex_test pattern url) youtube_url_patterns"

text \<open>\<^verbatim>\<open>/^https?:\/\/.+\.(rss|xml|feed)/i\<close>, \<^verbatim>\<open>/feed/i\<close> and \<^verbatim>\<open>/podcast/i\<close>\<close>

definition isValidPodcastURL :: "string \<Rightarrow> bool" where
  "isValidPodcastURL url =
     (regex_test (Anchored (seqs [LitI ''http'', Opt (LitI ''s''), LitI ''://'', ClsPlus isDot, LitI ''.'',
                            Grp (Alt (LitI ''rss'') (Alt (LitI ''xml'') (LitI ''feed'')))])) url
      \<or> regex_test (Anywhere (LitI ''feed'')) url
      \<or> regex_test (Anywhere (LitI ''podcast'')) url)"

text \<open>
  \<^verbatim>\<open>/[?&]v=([a-zA-Z0-9_-]{11})/\<close>, \<^verbatim>\<open>/youtu\.be\/([a-zA-Z0-9_-]{11})/\<close> and
  \<^verbatim>\<open>/embed\/([a-zA-Z0-9_-]{11})/\<close>
\<close>

definition video_id_patterns :: "pattern list" where
  "video_id_patterns =
     [Anywhere (seqs [Cls isQuerySep, Lit ''v='', Grp (ClsRep isIdChar 11)]),
      Anywhere (seqs [Lit ''youtu.be/'', Grp (ClsRep isIdChar 11)]),
      Anywhere (seqs [Lit ''embed/'', Grp (ClsRep isIdChar 11)])]"

text \<open>
  The loop of \<^verbatim>\<open>extractYouTubeVideoId\<close>: the first pattern that matches answers its group 1.
  \<open>None\<close> stands for \<^verbatim>\<open>null\<close> (and for the \<^verbatim>\<open>undefined\<close> of a group that took no part).
\<close>

fun first_capture :: "pattern list \<Rightarrow> string \<Rightarrow> string option" where
  "first_capture [] url = None"
| "first_capture (pattern # rest) url =
     (case regex_exec pattern url of
        None \<Rightarrow> first_capture rest url
      | Some groups \<Rightarrow> (case groups of [] \<Rightarrow> None | g1 # _ \<Rightarrow> g1))"

definition extractYouTubeVideoId :: "string \<Rightarrow> string option" where
  "extractYouTubeVideoId url = first_capture video_id_patterns url"

text \<open>A video id: 11 characters of the class \<^verbatim>\<open>[a-zA-Z0-9_-]\<close>.\<close>

definition is_id :: "string \<Rightarrow> bool" where
  "is_id v = (length v = 11 \<and> list_all isIdChar v)"

section \<open>The browser: errors, responses and the trace of a run\<close>

text \<open>
  A thrown value: \<^verbatim>\<open>new Error(message)\<close> has the name \<^verbatim>\<open>Error\<close>; what a rejected
  \<^verbatim>\<open>fetch\<close> or a failed body read throws has a name of its own (\<^verbatim>\<open>TypeError\<close>,
  \<^verbatim>\<open>SyntaxError\<close>, ...). A function that may throw returns \<open>error + 'a\<close>.
\<close>

datatype error = Error (name: string) (message: string)

definition new_Error :: "string \<Rightarrow> error" where
  "new_Error msg = Error ''Error'' msg"

datatype json =
    JNull
  | JBool bool
  | JNumber rat
  | JString string
  | JArray "json list"
  | JObject "(string \<times> json) list"  \<comment> \<open>the own properties, each name once\<close>

datatype jsvalue = Undefined | Value json

text \<open>
  The XML text of a response body is represented by what \<^verbatim>\<open>DOMParser.parseFromString\<close> and
  \<^verbatim>\<open>getElementsByTagName('text')\<close> find in it: the \<^verbatim>\<open>textContent\<close> of each \<^verbatim>\<open>text\<close> element,
  in document order (none for a body that holds no such element, well-formed or not).
  Neither call throws.
\<close>

type_synonym xml_text = "string list"

text \<open>
  What the program observes of a response: \<^verbatim>\<open>response.ok\<close>, the outcome of
  \<^verbatim>\<open>await response.text()\<close> and the outcome of \<^verbatim>\<open>await response.json()\<close>.
\<close>

record response =
  ok :: bool
  text_of :: "error + xml_text"
  json_of :: "error + json"

text \<open>
  \<^verbatim>\<open>fetch\<close> is a function of the URL: within one run of the pipeline every URL is requested
  at most once (the four URLs differ in their prefix), so nothing is lost by that. Every
  request is taken to settle: the program sets no timeout, and a request that never settles
  is outside the model. A run leaves a trace: the requests it made and the lines it wrote
  to the console.
\<close>

type_synonym fetch = "string \<Rightarrow> error + response"

datatype event = Fetch string | ConsoleLog string | ConsoleError string

section \<open>The transcript fetcher\<close>

text \<open>
  \<^verbatim>\<open>parseYouTubeTranscriptXML\<close>: the loop over the \<^verbatim>\<open>text\<close> elements appends each trimmed,
  non-empty content and a space; the result is trimmed.
\<close>

fun append_texts :: "string \<Rightarrow> xml_text \<Rightarrow> string" where
  "append_texts transcript [] = transcript"
| "append_texts transcript (textContent # rest) =
     (let t = trim textContent
      in append_texts (if t \<noteq> [] then transcript @ t @ '' '' else transcript) rest)"

definition parseYouTubeTranscriptXML :: "xml_text \<Rightarrow> string" where
  "parseYouTubeTranscriptXML xmlText = trim (append_texts [] xmlText)"

text \<open>
  One \<^verbatim>\<open>try\<close> block of \<^verbatim>\<open>getYouTubeTranscript\<close>; the three differ in the URL only.
  \<open>Inr (Some transcript)\<close> is the \<^verbatim>\<open>return transcript\<close>, \<open>Inr None\<close> leaves the block at its
  end, \<open>Inl e\<close> is what the \<^verbatim>\<open>catch\<close> receives.
\<close>

definition try_fetch_transcript :: "fetch \<Rightarrow> string \<Rightarrow> error + string option" where
  "try_fetch_transcript fetch url =
     (case fetch url of
        Inl e \<Rightarrow> Inl e
      | Inr response \<Rightarrow>
          if ok response then
            (case text_of response of
               Inl e \<Rightarrow> Inl e
             | Inr xmlText \<Rightarrow>
                 (let transcript = parseYouTubeTranscriptXML xmlText
                  in if transcript \<noteq> [] \<and> length transcript > 50 then Inr (Some transcript)
                     else Inr None))
          else Inr None)"

text \<open>The block with its \<^verbatim>\<open>catch\<close>, which writes one line to the console and goes on.\<close>

definition attempt :: "fetch \<Rightarrow> string \<Rightarrow> string \<Rightarrow> event list \<times> string option" where
  "attempt fetch url failure_line =
     (case try_fetch_transcript fetch url of
        Inl e \<Rightarrow> ([Fetch url, ConsoleLog failure_line], None)
      | Inr r \<Rightarrow> ([Fetch url], r))"

definition timedtext_url :: "string \<Rightarrow> string" where
  "timedtext_url videoId = ''https://www.youtube.com/api/timedtext?lang=en&v='' @ videoId"

definition codetabs_url :: "string \<Rightarrow> string" where
  "codetabs_url videoId =
     ''https://api.codetabs.com/v1/proxy?quest='' @ encodeURIComponent (timedtext_url videoId)"

definition cors_anywhere_url :: "string \<Rightarrow> string" where
  "cors_anywhere_url videoId = ''https://cors-anywhere.herokuapp.com/'' @ timedtext_url videoId"

definition TranscriptUnavailable :: error where
  "TranscriptUnavailable = new_Error
     (''Unable to fetch transcript due to CORS restrictions. '' @
      ''Please set up a backend service (see README.md) or use a browser extension that disables CORS. '' @
      ''Alternatively, ensure the video has captions enabled.'')"

definition getYouTubeTranscript :: "fetch \<Rightarrow> string \<Rightarrow> event list \<times> (error + string)" where
  "getYouTubeTranscript fetch videoId =
     (let (trace1, r1) = attempt fetch (timedtext_url videoId)
                           ''Direct API call failed, trying proxy...''
      in case r1 of
           Some transcript \<Rightarrow> (trace1, Inr transcript)
         | None \<Rightarrow>
             (let (trace2, r2) = attempt fetch (codetabs_url videoId)
                                   ''Proxy method failed, trying alternative...''
              in case r2 of
                   Some transcript \<Rightarrow> (trace1 @ trace2, Inr transcript)
                 | None \<Rightarrow>
                     (let (trace3, r3) = attempt fetch (cors_anywhere_url videoId)
                                           ''Alternative proxy failed''
                      in case r3 of
                           Some transcript \<Rightarrow> (trace1 @ trace2 @ trace3, Inr transcript)
                         | None \<Rightarrow> (trace1 @ trace2 @ trace3, Inl TranscriptUnavailable))))"

section \<open>The video metadata fetcher\<close>

record video_info =
  title :: jsvalue
  author :: jsvalue
  thumbnail :: jsvalue

text \<open>
  Reading a property of the parsed body, for the three names the program reads (no
  prototype defines any of them): \<^verbatim>\<open>null\<close> throws a \<^verbatim>\<open>TypeError\<close>, an object answers its own
  property, everything else \<^verbatim>\<open>undefined\<close>.
\<close>

fun get_property :: "json \<Rightarrow> string \<Rightarrow> error + jsvalue" where
  "get_property JNull k = Inl (Error ''TypeError'' (''Cannot read properties of null (reading '' @ k @ '')''))"
| "get_property (JObject props) k =
     Inr (case map_of props k of None \<Rightarrow> Undefined | Some v \<Rightarrow> Value v)"
| "get_property _ k = Inr Undefined"

definition oembed_url :: "string \<Rightarrow> string" where
  "oembed_url videoId =
     ''https://www.youtube.com/oembed?url=https://www.youtube.com/watch?v='' @ videoId @ ''&format=json''"

text \<open>The \<^verbatim>\<open>try\<close> block of \<^verbatim>\<open>getYouTubeVideoInfo\<close>.\<close>

definition try_video_info :: "fetch \<Rightarrow> string \<Rightarrow> error + video_info" where
  "try_video_info fetch videoId =
     (case fetch (oembed_url videoId) of
        Inl e \<Rightarrow> Inl e
      | Inr response \<Rightarrow>
          if \<not> ok response then Inl (new_Error ''Failed to fetch video info'')
          else (case json_of response of
                  Inl e \<Rightarrow> Inl e
                | Inr data \<Rightarrow>
                    (case get_property data ''title'' of
                       Inl e \<Rightarrow> Inl e
                     | Inr t \<Rightarrow>
                         (case get_property data ''author_name'' of
                            Inl e \<Rightarrow> Inl e
                          | Inr a \<Rightarrow>
                              (case get_property data ''thumbnail_url'' of
                                 Inl e \<Rightarrow> Inl e
                               | Inr th \<Rightarrow> Inr \<lparr>title = t, author = a, thumbnail = th\<rparr>)))))"

definition fallback_info :: video_info where
  "fallback_info =
     \<lparr>title = Value (JString ''Video''), author = Value (JString ''Unknown''), thumbnail = Value JNull\<rparr>"

text \<open>The whole function: the \<^verbatim>\<open>catch\<close> logs the error and returns the fixed record.\<close>

definition getYouTubeVideoInfo :: "fetch \<Rightarrow> string \<Rightarrow> event list \<times> (error + video_info)" where
  "getYouTubeVideoInfo fetch videoId =
     (case try_video_info fetch videoId of
        Inl e \<Rightarrow> ([Fetch (oembed_url videoId), ConsoleError ''Error fetching video info:''],
                  Inr fallback_info)
      | Inr info \<Rightarrow> ([Fetch (oembed_url videoId)], Inr info))"

section \<open>The extractive summarizer\<close>

subsection \<open>The frequency object\<close>

text \<open>
  \<^verbatim>\<open>wordFreq\<close> is an ordinary object created by \<^verbatim>\<open>{}\<close>. A value of one of its properties is
  a number (a count) or, once a name inherited from \<^verbatim>\<open>Object.prototype\<close> was read, a string
  that does not read as a number: the text of the inherited function or object followed by
  \<^verbatim>\<open>1\<close>s.
\<close>

datatype freq = Num nat | Text

text \<open>
  The own properties, in the order \<^verbatim>\<open>Object.entries\<close> lists them: the array indices in
  ascending numeric order first, then the other names in the order of their creation.
\<close>

type_synonym obj = "(string \<times> freq) list"

definition isDigit :: "char \<Rightarrow> bool" where
  "isDigit c = (c \<in> set ''0123456789'')"

text \<open>The value of a decimal digit is its place among the ten, and back.\<close>

definition digit_value :: "char \<Rightarrow> nat" where
  "digit_value c = length (takeWhile (\<lambda>d. d \<noteq> c) ''0123456789'')"

definition digit_char :: "nat \<Rightarrow> char" where
  "digit_char n = ''0123456789'' ! n"

definition index_value :: "string \<Rightarrow> nat" where
  "index_value k = foldl (\<lambda>n c. 10 * n + digit_value c) 0 k"

fun decimal_string :: "nat \<Rightarrow> string" where
  "decimal_string n =
     (if n < 10 then [digit_char n]
      else decimal_string (n div 10) @ [digit_char (n mod 10)])"

declare decimal_string.simps [simp del]

text \<open>
  An array index is a property name that is the decimal text of an integer from 0 to
  \<open>2\<^sup>3\<^sup>2 - 2\<close>, as \<^verbatim>\<open>ToString\<close> writes it (no sign, no leading zero).
\<close>

definition isArrayIndex :: "string \<Rightarrow> bool" where
  "isArrayIndex k =
     (if k \<noteq> [] \<and> list_all isDigit k
      then decimal_string (index_value k) = k \<and> index_value k < 4294967295
      else False)"

text \<open>The property names of \<^verbatim>\<open>Object.prototype\<close>; \<^verbatim>\<open>__proto__\<close> is the one with a setter.\<close>

definition Object_prototype_names :: "string list" where
  "Object_prototype_names =
     [''constructor'', ''__defineGetter__'', ''__defineSetter__'', ''hasOwnProperty'',
      ''__lookupGetter__'', ''__lookupSetter__'', ''isPrototypeOf'', ''propertyIsEnumerable'',
      ''toString'', ''valueOf'', ''__proto__'', ''toLocaleString'']"

text \<open>
  \<^verbatim>\<open>(wordFreq[k] || 0) + 1\<close>: an own count is incremented; an own string, or an inherited
  function or object (all of them truthy), is concatenated with \<^verbatim>\<open>1\<close>; a missing property is
  \<^verbatim>\<open>undefined\<close>, replaced by 0.
\<close>

definition incremented :: "obj \<Rightarrow> string \<Rightarrow> freq" where
  "incremented wordFreq k =
     (case map_of wordFreq k of
        Some (Num n) \<Rightarrow> Num (n + 1)
      | Some Text \<Rightarrow> Text
      | None \<Rightarrow> if k \<in> set Object_prototype_names then Text else Num 1)"

text \<open>A new own property: an array index goes to its numeric place, another name to the end.\<close>

fun insert_index :: "string \<Rightarrow> freq \<Rightarrow> obj \<Rightarrow> obj" where
  "insert_index k v [] = [(k, v)]"
| "insert_index k v ((k', v') # rest) =
     (if isArrayIndex k' \<and> index_value k' < index_value k
      then (k', v') # insert_index k v rest
      else (k, v) # (k', v') # rest)"

definition define_property :: "obj \<Rightarrow> string \<Rightarrow> freq \<Rightarrow> obj" where
  "define_property wordFreq k v =
     (if isArrayIndex k then insert_index k v wordFreq else wordFreq @ [(k, v)])"

text \<open>
  \<^verbatim>\<open>wordFreq[k] = v\<close> for a value \<^verbatim>\<open>v\<close> that is a number or a string: an own property keeps
  its place and takes the value; the setter of \<^verbatim>\<open>__proto__\<close> ignores such a value; every other
  name becomes a new own property.
\<close>

definition assign :: "obj \<Rightarrow> string \<Rightarrow> freq \<Rightarrow> obj" where
  "assign wordFreq k v =
     (if map_of wordFreq k \<noteq> None
      then map (\<lambda>(k', v'). if k' = k then (k', v) else (k', v')) wordFreq
      else if k = ''__proto__'' then wordFreq
      else define_property wordFreq k v)"

subsection \<open>Sorting the entries\<close>

text \<open>
  The comparator \<^verbatim>\<open>(a, b) => b[1] - a[1]\<close>: the difference of two counts, \<^verbatim>\<open>NaN\<close> (here
  \<open>None\<close>) as soon as one side is a string that is no number.
\<close>

definition comparefn :: "string \<times> freq \<Rightarrow> string \<times> freq \<Rightarrow> int option" where
  "comparefn a b =
     (case (snd b, snd a) of
        (Num y, Num x) \<Rightarrow> Some (int y - int x)
      | _ \<Rightarrow> None)"

text \<open>\<^verbatim>\<open>SortCompare\<close> of \<^verbatim>\<open>Array.prototype.sort\<close> reads \<^verbatim>\<open>NaN\<close> as \<^verbatim>\<open>+0\<close>.\<close>

definition SortCompare :: "string \<times> freq \<Rightarrow> string \<times> freq \<Rightarrow> int" where
  "SortCompare a b = (case comparefn a b of None \<Rightarrow> 0 | Some v \<Rightarrow> v)"

text \<open>
  The language fixes the result of \<^verbatim>\<open>sort\<close> only for a comparator that is consistent on the
  elements: reflexive and symmetric in what it calls equal, and transitive in equal, less
  and greater. Then the elements are in ascending order of the comparator and equal
  elements keep their order (the sort is stable). Otherwise the order is
  implementation-defined.
\<close>

datatype 'a outcome = Defined 'a | ImplementationDefined

definition consistent :: "('a \<Rightarrow> 'a \<Rightarrow> int) \<Rightarrow> 'a list \<Rightarrow> bool" where
  "consistent cmp xs =
     list_all (\<lambda>a. cmp a a = 0 \<and>
       list_all (\<lambda>b. (if cmp a b = 0 then cmp b a = 0 else True) \<and>
         list_all (\<lambda>c.
           (if cmp a b = 0 \<and> cmp b c = 0 then cmp a c = 0 else True) \<and>
           (if cmp a b < 0 \<and> cmp b c < 0 then cmp a c < 0 else True) \<and>
           (if cmp a b > 0 \<and> cmp b c > 0 then cmp a c > 0 else True)) xs) xs) xs"

fun insert_stable :: "('a \<Rightarrow> 'a \<Rightarrow> int) \<Rightarrow> 'a \<Rightarrow> 'a list \<Rightarrow> 'a list" where
  "insert_stable cmp x [] = [x]"
| "insert_stable cmp x (y # ys) =
     (if cmp x y \<le> 0 then x # y # ys else y # insert_stable cmp x ys)"

fun stable_sort :: "('a \<Rightarrow> 'a \<Rightarrow> int) \<Rightarrow> 'a list \<Rightarrow> 'a list" where
  "stable_sort cmp [] = []"
| "stable_sort cmp (x # xs) = insert_stable cmp x (stable_sort cmp xs)"

definition array_sort :: "('a \<Rightarrow> 'a \<Rightarrow> int) \<Rightarrow> 'a list \<Rightarrow> 'a list outcome" where
  "array_sort cmp xs = (if consistent cmp xs then Defined (stable_sort cmp xs) else ImplementationDefined)"

subsection \<open>Key points\<close>

definition stopWords :: "string list" where
  "stopWords =
     [''the'', ''a'', ''an'', ''and'', ''or'', ''but'', ''in'', ''on'', ''at'', ''to'', ''for'', ''of'',
      ''with'', ''by'', ''is'', ''are'', ''was'', ''were'', ''be'', ''been'', ''have'', ''has'', ''had'',
      ''do'', ''does'', ''did'', ''will'', ''would'', ''could'', ''should'', ''may'', ''might'', ''must'',
      ''can'', ''this'', ''that'', ''these'', ''those'', ''i'', ''you'', ''he'', ''she'', ''it'', ''we'',
      ''they'']"

text \<open>The body of the \<^verbatim>\<open>forEach\<close>: \<^verbatim>\<open>word.replace(/[^\w]/g, '')\<close> keeps the word characters.\<close>

definition count_word :: "obj \<Rightarrow> string \<Rightarrow> obj" where
  "count_word wordFreq word =
     (let cleanWord = filter isWordChar word
      in if length cleanWord > 4 \<and> cleanWord \<notin> set stopWords
         then assign wordFreq cleanWord (incremented wordFreq cleanWord)
         else wordFreq)"

definition extractKeyPoints :: "string \<Rightarrow> string list outcome" where
  "extractKeyPoints text_in =
     (let words = split_on isWhiteSpace (toLowerCase text_in);
          wordFreq = foldl count_word [] words
      in case array_sort SortCompare wordFreq of
           ImplementationDefined \<Rightarrow> ImplementationDefined
         | Defined sorted_entries \<Rightarrow> Defined (map fst (slice0 5 sorted_entries)))"

subsection \<open>The summary\<close>

record summary_data =
  summary :: string
  keyPoints :: "string list outcome"
  wordCount :: nat

definition TooShort :: error where
  "TooShort = new_Error ''Transcript too short to generate summary''"

text \<open>
  \<^verbatim>\<open>Math.min(5, Math.ceil(n * 0.2))\<close> for an array length \<^verbatim>\<open>n\<close>. The product is computed in
  double precision, where \<^verbatim>\<open>0.2\<close> is \<open>(1 + 2\<^sup>-\<^sup>5\<^sup>4) / 5\<close>: for \<open>n = 5 * k\<close> the exact product
  \<open>k + k * 2\<^sup>-\<^sup>5\<^sup>4\<close> rounds to \<open>k\<close>, and for every other \<open>n\<close> below \<open>2\<^sup>3\<^sup>2\<close> the product and its
  rounding lie strictly between two integers, so the ceiling is the one of the exact
  product \<open>n / 5\<close>.
\<close>

definition summaryLength :: "nat \<Rightarrow> nat" where
  "summaryLength n = min 5 (nat \<lceil>of_nat n * (0.2 :: rat)\<rceil>)"

definition sentences_of :: "string \<Rightarrow> string list" where
  "sentences_of text_in = filter (\<lambda>s. length (trim s) > 20) (split_on isTerminator text_in)"

definition generateSummary :: "string \<Rightarrow> error + summary_data" where
  "generateSummary text_in =
     (if text_in = [] \<or> length text_in < 50 then Inl TooShort
      else
        (let sentences = sentences_of text_in;
             summary = join_with ''. '' (slice0 (summaryLength (length sentences)) sentences) @ ''.''
         in Inr \<lparr>summary = summary,
                 keyPoints = extractKeyPoints text_in,
                 wordCount = length (split_on isWhiteSpace text_in)\<rparr>))"

subsection \<open>The summary as the specification words it\<close>

text \<open>
  Splitting on runs of separators: the text is cut at every separator character and the
  empty pieces (between two adjacent separators, before a leading and behind a trailing
  one) are dropped.
\<close>

fun pieces :: "(char \<Rightarrow> bool) \<Rightarrow> string \<Rightarrow> string \<Rightarrow> string list" where
  "pieces sep cur [] = [cur]"
| "pieces sep cur (c # cs) =
     (if sep c then cur # pieces sep [] cs else pieces sep (cur @ [c]) cs)"

definition fragments :: "(char \<Rightarrow> bool) \<Rightarrow> string \<Rightarrow> string list" where
  "fragments sep s = filter (\<lambda>f. f \<noteq> []) (pieces sep [] s)"

text \<open>
  The sentences are the fragments whose trimmed length exceeds 20; with \<open>n\<close> their count,
  the summary is the first \<open>min(5, ceil(n * 0.2))\<close> of them joined with a period and a
  space, and a period behind.
\<close>

definition spec_sentences :: "string \<Rightarrow> string list" where
  "spec_sentences text_in = filter (\<lambda>s. 20 < length (trim s)) (fragments isTerminator text_in)"

definition spec_summary :: "string \<Rightarrow> string" where
  "spec_summary text_in =
     join_with ''. ''
       (take (min 5 (nat \<lceil>real (length (spec_sentences text_in)) * 0.2\<rceil>)) (spec_sentences text_in))
     @ ''.''"

subsection \<open>The key points as the specification words them\<close>

text \<open>
  The tokens: the lower-cased text split at white space, each piece stripped of its
  non-word characters, without the pieces of at most 4 characters and the stop words.
\<close>

definition tokens :: "string \<Rightarrow> string list" where
  "tokens text_in =
     filter (\<lambda>w. 4 < length w \<and> w \<notin> set stopWords)
       (map (filter isWordChar) (split_on isWhiteSpace (toLowerCase text_in)))"

text \<open>The distinct elements of a list, in the order of their first occurrences.\<close>

definition first_encountered :: "'a list \<Rightarrow> 'a list" where
  "first_encountered ws = rev (remdups (rev ws))"

text \<open>
  The 5 most frequent of the distinct tokens: a stable sort by descending count of the
  tokens in a given order, which so breaks the ties, cut after the fifth.
\<close>

definition top5 :: "string list \<Rightarrow> string list \<Rightarrow> string list" where
  "top5 tie_order ws = take 5 (sort_key (\<lambda>w. - int (count_list ws w)) tie_order)"

definition spec_keyPoints :: "string \<Rightarrow> string list" where
  "spec_keyPoints text_in = top5 (first_encountered (tokens text_in)) (tokens text_in)"

text \<open>
  The order in which an object enumerates the tokens as its property names: the array
  indices in ascending numeric order, then the other tokens as first encountered.
\<close>

definition enumeration_order :: "string list \<Rightarrow> string list" where
  "enumeration_order ws =
     sort_key index_value (filter isArrayIndex (first_encountered ws))
     @ filter (\<lambda>w. \<not> isArrayIndex w) (first_encountered ws)"

section \<open>The pipeline\<close>

text \<open>
  What \<^verbatim>\<open>summarizeContent\<close> leaves on the page: the results handed to \<^verbatim>\<open>displayResults\<close>, or
  the text of the error message. The loading indicator and the other page elements are
  left out.
\<close>

datatype page =
    Results video_info summary_data string
  | ErrorMessage string

text \<open>The \<^verbatim>\<open>try\<close> block of \<^verbatim>\<open>summarizeContent\<close>.\<close>

definition try_summarize :: "fetch \<Rightarrow> string \<Rightarrow> event list \<times> (error + page)" where
  "try_summarize fetch url =
     (if isValidYouTubeURL url then
        (case extractYouTubeVideoId url of
           None \<Rightarrow> ([], Inl (new_Error ''Invalid YouTube URL format''))
         | Some videoId \<Rightarrow>
             if videoId = [] then ([], Inl (new_Error ''Invalid YouTube URL format''))
             else
               (case getYouTubeVideoInfo fetch videoId of
                  (trace1, Inl e) \<Rightarrow> (trace1, Inl e)
                | (trace1, Inr videoInfo) \<Rightarrow>
                    (case getYouTubeTranscript fetch videoId of
                       (trace2, Inl e) \<Rightarrow> (trace1 @ trace2, Inl e)
                     | (trace2, Inr transcript) \<Rightarrow>
                         if transcript = [] \<or> length transcript < 50
                         then (trace1 @ trace2, Inl (new_Error
                           ''No transcript available for this video. The video may not have captions enabled.''))
                         else
                           (case generateSummary transcript of
                              Inl e \<Rightarrow> (trace1 @ trace2, Inl e)
                            | Inr summaryData \<Rightarrow>
                                (trace1 @ trace2, Inr (Results videoInfo summaryData transcript))))))
      else if isValidPodcastURL url then
        ([], Inl (new_Error
           ''Podcast RSS feed processing requires backend setup. Please use YouTube videos for now.''))
      else ([], Inl (new_Error ''Invalid URL. Please enter a valid YouTube URL.'')))"

text \<open>The \<^verbatim>\<open>catch\<close> shows the message of whatever was thrown.\<close>

definition summarizeContent :: "fetch \<Rightarrow> string \<Rightarrow> event list \<times> page" where
  "summarizeContent fetch url =
     (case try_summarize fetch url of
        (trace, Inl e) \<Rightarrow> (trace @ [ConsoleError ''Error:''], ErrorMessage (''Error: '' @ message e))
      | (trace, Inr shown) \<Rightarrow> (trace, shown))"

section \<open>Failing strategies and sample networks\<close>

text \<open>
  A retrieval strategy fails or stays below the acceptance threshold when the request is
  rejected, the response is not a 2xx one, the body cannot be read, or the parsed
  transcript has at most 50 characters.
\<close>

definition strategy_fails :: "fetch \<Rightarrow> string \<Rightarrow> bool" where
  "strategy_fails fetch url =
     (case fetch url of
        Inl e \<Rightarrow> True
      | Inr response \<Rightarrow>
          if ok response
          then (case text_of response of
                  Inl e \<Rightarrow> True
                | Inr xmlText \<Rightarrow> length (parseYouTubeTranscriptXML xmlText) \<le> 50)
          else True)"

text \<open>
  The metadata request fails by a network error (the request is rejected), by a response
  that is not a 2xx one, or by a malformed body: one that is not JSON (\<^verbatim>\<open>response.json()\<close>
  is rejected) or is the JSON \<^verbatim>\<open>null\<close> (reading its title throws).
\<close>

definition metadata_fails :: "fetch \<Rightarrow> string \<Rightarrow> bool" where
  "metadata_fails fetch videoId =
     (case fetch (oembed_url videoId) of
        Inl e \<Rightarrow> True
      | Inr response \<Rightarrow>
          if ok response then (case json_of response of Inl e \<Rightarrow> True | Inr data \<Rightarrow> data = JNull)
          else True)"

text \<open>
  Sample networks: one where every request is rejected, and one where only the direct
  timedtext request of a video is answered, by a 2xx response whose body holds the given
  \<^verbatim>\<open>text\<close> elements.
\<close>

definition rejected :: "error + response" where
  "rejected = Inl (Error ''TypeError'' ''Failed to fetch'')"

definition xml_response :: "xml_text \<Rightarrow> error + response" where
  "xml_response texts =
     Inr \<lparr>ok = True, text_of = Inr texts,
          json_of = Inl (Error ''SyntaxError'' ''Unexpected token < in JSON at position 0'')\<rparr>"

definition fetch_offline :: fetch where
  "fetch_offline url = rejected"

definition fetch_direct_only :: "string \<Rightarrow> xml_text \<Rightarrow> fetch" where
  "fetch_direct_only videoId texts url =
     (if url = timedtext_url videoId then xml_response texts else rejected)"

section \<open>Price ticker: the bounded history buffer (app.js)\<close>

text \<open>
  The module-level state of app.js: the two arrays \<^verbatim>\<open>priceHistory\<close> and \<^verbatim>\<open>timeLabels\<close>.
  A price is whatever \<^verbatim>\<open>parseFloat\<close> returned; the buffer never inspects it, so its type
  is left open. The label is the string \<^verbatim>\<open>toLocaleTimeString\<close> made of the clock, an input
  of the model.
\<close>

record 'p chart_state =
  priceHistory :: "'p list"
  timeLabels :: "string list"

definition maxDataPoints :: nat where
  "maxDataPoints = 50"

definition initial_state :: "'p chart_state" where
  "initial_state = \<lparr>priceHistory = [], timeLabels = []\<rparr>"

text \<open>\<^verbatim>\<open>Array.prototype.push\<close> appends; \<^verbatim>\<open>shift\<close> removes index 0 (and leaves an empty array empty).\<close>

definition push :: "'a list \<Rightarrow> 'a \<Rightarrow> 'a list" where
  "push xs x = xs @ [x]"

definition shift :: "'a list \<Rightarrow> 'a list" where
  "shift xs = (case xs of [] \<Rightarrow> [] | _ # rest \<Rightarrow> rest)"

text \<open>
  \<^verbatim>\<open>updateChart(price)\<close>, with the label read from the clock passed in. The two assignments to
  \<^verbatim>\<open>chart.data\<close> and the redraw hand the same arrays to the chart widget and change neither.
\<close>

definition updateChart :: "'p \<Rightarrow> string \<Rightarrow> 'p chart_state \<Rightarrow> 'p chart_state" where
  "updateChart price timeLabel st =
     (let st1 = st\<lparr>priceHistory := push (priceHistory st) price\<rparr>;
          st2 = st1\<lparr>timeLabels := push (timeLabels st1) timeLabel\<rparr>
      in if length (priceHistory st2) > maxDataPoints
         then (let st3 = st2\<lparr>priceHistory := shift (priceHistory st2)\<rparr>
               in st3\<lparr>timeLabels := shift (timeLabels st3)\<rparr>)
         else st2)"

text \<open>The page's life: one \<^verbatim>\<open>updateChart\<close> per sample, oldest first, from the empty buffers.\<close>

fun run_updates :: "'p chart_state \<Rightarrow> ('p \<times> string) list \<Rightarrow> 'p chart_state" where
  "run_updates st [] = st"
| "run_updates st ((price, timeLabel) # rest) = run_updates (updateChart price timeLabel st) rest"

section \<open>The bounded history buffer is a FIFO window\<close>

lemma run_updates_append:
  "run_updates st (xs @ ys) = run_updates (run_updates st xs) ys"
  by (induction xs arbitrary: st) auto

lemma drop_push_window:
  assumes "n = length xs"
  shows "drop (Suc n - 50) (xs @ [x]) = (if 50 < Suc (length (drop (n - 50) xs))
           then shift (push (drop (n - 50) xs) x) else push (drop (n - 50) xs) x)"
proof (cases "n < 50")
  case True
  with assms show ?thesis by (simp add: push_def)
next
  case False
  with assms have len: "length (drop (n - 50) xs) = 50" by simp
  from False assms have "Suc n - 50 = Suc (n - 50)" by simp
  moreover from False assms have "n - 50 < length xs \<or> xs = []" by auto
  ultimately have "drop (Suc n - 50) (xs @ [x]) = drop 1 (drop (n - 50) xs @ [x])"
    using assms False by simp
  moreover from len obtain y ys where "drop (n - 50) xs = y # ys"
    by (cases "drop (n - 50) xs") auto
  ultimately show ?thesis using len by (simp add: push_def shift_def)
qed

lemma run_updates_window:
  "run_updates initial_state samples =
     \<lparr>priceHistory = drop (length samples - 50) (map fst samples),
      timeLabels = drop (length samples - 50) (map snd samples)\<rparr>"
proof (induction samples rule: rev_induct)
  case Nil
  show ?case by (simp add: initial_state_def)
next
  case (snoc s samples)
  obtain price timeLabel where s: "s = (price, timeLabel)" by (cases s)
  have a: "drop (Suc (length samples) - 50) (map fst samples @ [price]) =
      (if 50 < Suc (length (drop (length samples - 50) (map fst samples)))
       then shift (push (drop (length samples - 50) (map fst samples)) price)
       else push (drop (length samples - 50) (map fst samples)) price)"
    by (rule drop_push_window) simp
  have b: "drop (Suc (length samples) - 50) (map snd samples @ [timeLabel]) =
      (if 50 < Suc (length (drop (length samples - 50) (map snd samples)))
       then shift (push (drop (length samples - 50) (map snd samples)) timeLabel)
       else push (drop (length samples - 50) (map snd samples)) timeLabel)"
    by (rule drop_push_window) simp
  have "run_updates initial_state (samples @ [s]) =
      updateChart price timeLabel (run_updates initial_state samples)"
    by (simp add: run_updates_append s)
  also have "\<dots> = \<lparr>priceHistory = drop (Suc (length samples) - 50) (map fst samples @ [price]),
      timeLabels = drop (Suc (length samples) - 50) (map snd samples @ [timeLabel])\<rparr>"
    unfolding snoc.IH a b
    by (simp add: updateChart_def maxDataPoints_def Let_def push_def)
  finally show ?case by (simp add: s)
qed

text \<open>
  C2. From the empty buffers, after any sequence of \<^verbatim>\<open>updateChart\<close> calls the price buffer
  holds at most 50 entries, \<^verbatim>\<open>priceHistory\<close> and \<^verbatim>\<open>timeLabels\<close> have the same length, and
  both hold exactly the last 50 samples in arrival order: eviction is from the front, oldest
  first. After 51 samples the buffers are the samples 2 to 51, the first one gone.
\<close>

theorem updateChart_fifo_window:
  "length (priceHistory (run_updates initial_state samples)) \<le> maxDataPoints
   \<and> length (priceHistory (run_updates initial_state samples))
       = length (timeLabels (run_updates initial_state samples))
   \<and> priceHistory (run_updates initial_state samples)
       = drop (length samples - maxDataPoints) (map fst samples)
   \<and> timeLabels (run_updates initial_state samples)
       = drop (length samples - maxDataPoints) (map snd samples)
   \<and> (length samples = 51 \<longrightarrow>
        priceHistory (run_updates initial_state samples) = tl (map fst samples)
        \<and> timeLabels (run_updates initial_state samples) = tl (map snd samples))"
  by (simp add: run_updates_window maxDataPoints_def drop_Suc)

theorem updateChart_fifo_window_witness:
  "length (map (\<lambda>n. (n, ''12:00:00 AM'')) [1..<52]) = 51
   \<and> priceHistory (run_updates initial_state (map (\<lambda>n. (n, ''12:00:00 AM'')) [1..<52])) = [2..<52]
   \<and> 1 \<notin> set (priceHistory (run_updates initial_state (map (\<lambda>n. (n, ''12:00:00 AM'')) [1..<52])))
   \<and> length (timeLabels (run_updates initial_state (map (\<lambda>n. (n, ''12:00:00 AM'')) [1..<52]))) = 50"
proof -
  define samples where "samples = map (\<lambda>n::nat. (n, ''12:00:00 AM'')) [1..<52]"
  have n: "length samples = 51" by (simp add: samples_def)
  have m: "tl (map fst samples) = [2..<52]"
    unfolding samples_def by code_simp
  have l: "length [2..<52::nat] = 50" by simp
  have s: "1 \<notin> set [2..<52::nat]" by simp
  from updateChart_fifo_window [of samples] n
  have "priceHistory (run_updates initial_state samples) = tl (map fst samples)"
    and "length (priceHistory (run_updates initial_state samples))
          = length (timeLabels (run_updates initial_state samples))"
    by blast+
  then have "priceHistory (run_updates initial_state samples) = [2..<52]"
    and "length (timeLabels (run_updates initial_state samples)) = 50"
    using l by (simp_all only: m)
  with n s show ?thesis unfolding samples_def by (simp only: not_False_eq_True simp_thms)
qed

section \<open>The summarizer: short input, the summary field, the empty summary\<close>

lemma ceiling_fifth_rat: "nat \<lceil>of_nat n * (0.2 :: rat)\<rceil> = (n + 4) div 5"
  by linarith

lemma ceiling_fifth_real: "nat \<lceil>real n * 0.2\<rceil> = (n + 4) div 5"
  by linarith

lemma pieces_dropWhile:
  "filter (\<lambda>f. f \<noteq> []) (pieces sep [] (dropWhile sep s))
     = filter (\<lambda>f. f \<noteq> []) (pieces sep [] s)"
  by (induction s) auto

lemma split_scan_pieces:
  "filter (\<lambda>f. f \<noteq> []) (split_scan sep cur s) = filter (\<lambda>f. f \<noteq> []) (pieces sep cur s)"
proof (induction sep cur s rule: split_scan.induct)
  case (1 sep cur)
  show ?case by simp
next
  case (2 sep cur c cs)
  then show ?case
    using pieces_dropWhile [of sep cs] by (cases "sep c") simp_all
qed

lemma split_on_fragments: "filter (\<lambda>f. f \<noteq> []) (split_on sep s) = fragments sep s"
  by (simp add: split_on_def fragments_def split_scan_pieces)

lemma trim_Nil: "trim [] = []"
  by (simp add: trim_def)

lemma sentences_of_spec: "sentences_of text_in = spec_sentences text_in"
proof -
  have "filter (\<lambda>s. 20 < length (trim s)) xs
          = filter (\<lambda>s. 20 < length (trim s)) (filter (\<lambda>f. f \<noteq> []) xs)" for xs
    by (induction xs) (auto simp: trim_Nil)
  then show ?thesis
    unfolding sentences_of_def spec_sentences_def split_on_fragments [symmetric] by simp
qed

text \<open>
  C4. On a text of fewer than 50 characters, the empty one among them, \<^verbatim>\<open>generateSummary\<close>
  throws the error with the message "Transcript too short to generate summary", and
  returns no record.
\<close>

theorem generateSummary_too_short:
  assumes "length text_in < 50"
  shows "generateSummary text_in = Inl TooShort \<and> (\<forall>r. generateSummary text_in \<noteq> Inr r)"
  using assms by (simp add: generateSummary_def)

theorem generateSummary_too_short_witness:
  "length ''Too short a text.'' < 50
   \<and> generateSummary ''Too short a text.'' = Inl TooShort
   \<and> generateSummary [] = Inl (Error ''Error'' ''Transcript too short to generate summary'')"
  using generateSummary_too_short [of "''Too short a text.''"] generateSummary_too_short [of "[]"]
  by (simp add: TooShort_def new_Error_def)

text \<open>
  C6. On a text of at least 50 characters \<^verbatim>\<open>generateSummary\<close> returns a record, and its
  summary is the one the specification words: the fragments between runs of \<^verbatim>\<open>.\<close>, \<^verbatim>\<open>!\<close>
  and \<^verbatim>\<open>?\<close> whose trimmed length exceeds 20 are the sentences, \<open>n\<close> is their count, and the
  first \<open>min(5, ceil(n * 0.2))\<close> of them are joined with ". " and closed by a period.
\<close>

theorem generateSummary_summary:
  assumes "50 \<le> length text_in"
  shows "\<exists>r. generateSummary text_in = Inr r \<and> summary r = spec_summary text_in"
proof -
  from assms have "text_in \<noteq> []" by auto
  moreover have "summaryLength n = min 5 (nat \<lceil>real n * 0.2\<rceil>)" for n
    by (simp only: summaryLength_def ceiling_fifth_rat ceiling_fifth_real)
  ultimately show ?thesis
    using assms
    by (simp add: generateSummary_def Let_def spec_summary_def slice0_def sentences_of_spec)
qed

theorem generateSummary_summary_witness:
  "50 \<le> length ''This is the first sentence of the text. And here is another fairly long sentence! ok? fine.''
   \<and> (\<exists>r. generateSummary
          ''This is the first sentence of the text. And here is another fairly long sentence! ok? fine.'' = Inr r
        \<and> summary r = ''This is the first sentence of the text.'')"
proof -
  define t where
    "t = ''This is the first sentence of the text. And here is another fairly long sentence! ok? fine.''"
  have len: "50 \<le> length t" by (simp add: t_def)
  have sents: "spec_sentences t
      = [''This is the first sentence of the text'', '' And here is another fairly long sentence'']"
    unfolding t_def by code_simp
  have "nat \<lceil>real (length (spec_sentences t)) * 0.2\<rceil> = 1"
    unfolding ceiling_fifth_real sents by simp
  then have "spec_summary t = ''This is the first sentence of the text.''"
    unfolding spec_summary_def by (simp add: sents)
  with generateSummary_summary [OF len] len show ?thesis
    unfolding t_def by simp
qed

text \<open>
  C10. On a text of at least 50 characters in which no fragment between runs of \<^verbatim>\<open>.\<close>, \<^verbatim>\<open>!\<close>
  and \<^verbatim>\<open>?\<close> is longer than 20 characters after trimming, \<^verbatim>\<open>generateSummary\<close> does not fail:
  it returns the record whose summary is the single period, with the key points and the
  word count of the text.
\<close>

theorem generateSummary_no_sentence:
  assumes "50 \<le> length text_in"
    and "list_all (\<lambda>f. length (trim f) \<le> 20) (fragments isTerminator text_in)"
  shows "generateSummary text_in =
           Inr \<lparr>summary = ''.'', keyPoints = extractKeyPoints text_in,
                wordCount = length (split_on isWhiteSpace text_in)\<rparr>"
proof -
  from assms(2) have "spec_sentences text_in = []"
    by (auto simp: spec_sentences_def list_all_iff filter_empty_conv)
  moreover from assms(1) have "text_in \<noteq> []" by auto
  ultimately show ?thesis
    using assms(1) by (simp add: generateSummary_def Let_def sentences_of_spec slice0_def)
qed

theorem generateSummary_no_sentence_witness:
  "50 \<le> length ''a. b. c. d. e. f. g. h. i. j. k. l. m. n. o. p. q. r. s. t. u. v. w. x. y. z.''
   \<and> list_all (\<lambda>f. length (trim f) \<le> 20)
        (fragments isTerminator ''a. b. c. d. e. f. g. h. i. j. k. l. m. n. o. p. q. r. s. t. u. v. w. x. y. z.'')
   \<and> generateSummary ''a. b. c. d. e. f. g. h. i. j. k. l. m. n. o. p. q. r. s. t. u. v. w. x. y. z.''
       = Inr \<lparr>summary = ''.'', keyPoints = Defined [], wordCount = 26\<rparr>"
proof -
  define t where "t = ''a. b. c. d. e. f. g. h. i. j. k. l. m. n. o. p. q. r. s. t. u. v. w. x. y. z.''"
  have len: "50 \<le> length t" by (simp add: t_def)
  have short: "list_all (\<lambda>f. length (trim f) \<le> 20) (fragments isTerminator t)"
    unfolding t_def by code_simp
  have kp: "extractKeyPoints t = Defined []"
    unfolding t_def by code_simp
  have wc: "length (split_on isWhiteSpace t) = 26"
    unfolding t_def by code_simp
  from generateSummary_no_sentence [OF len short] len short show ?thesis
    unfolding kp wc unfolding t_def by simp
qed

section \<open>The transcript fetcher: short circuit and the aggregated error\<close>

lemma attempt_result:
  "snd (attempt fetch url line) = None \<or> (\<exists>t. snd (attempt fetch url line) = Some t \<and> 50 < length t)"
  by (auto simp: attempt_def try_fetch_transcript_def Let_def split: sum.splits)

lemma attempt_fetches: "filter (\<lambda>e. \<exists>u. e = Fetch u) (fst (attempt fetch url line)) = [Fetch url]"
  by (auto simp: attempt_def split: sum.splits)

lemma attempt_fails:
  "strategy_fails fetch url \<Longrightarrow> snd (attempt fetch url line) = None"
  by (auto simp: attempt_def try_fetch_transcript_def strategy_fails_def Let_def
      split: sum.splits if_splits)

lemma getYouTubeTranscript_result:
  "snd (getYouTubeTranscript fetch videoId) = Inl TranscriptUnavailable
   \<or> (\<exists>t. snd (getYouTubeTranscript fetch videoId) = Inr t \<and> 50 < length t)"
proof -
  note a = attempt_result [of fetch "timedtext_url videoId" "''Direct API call failed, trying proxy...''"]
    attempt_result [of fetch "codetabs_url videoId" "''Proxy method failed, trying alternative...''"]
    attempt_result [of fetch "cors_anywhere_url videoId" "''Alternative proxy failed''"]
  then show ?thesis
    by (auto simp: getYouTubeTranscript_def Let_def split_def split: option.splits)
qed

text \<open>
  C1, as the code has it. If the first retrieval strategy succeeds (the direct request is
  answered by a 2xx response whose body can be read) and its parsed transcript has more
  than 50 characters, \<^verbatim>\<open>getYouTubeTranscript\<close> returns that transcript, and the direct request
  is the only one made: the two proxy strategies are not invoked and nothing is logged.
\<close>

theorem getYouTubeTranscript_short_circuit:
  assumes "fetch (timedtext_url videoId) = Inr response"
    and "ok response"
    and "text_of response = Inr xmlText"
    and "50 < length (parseYouTubeTranscriptXML xmlText)"
  shows "getYouTubeTranscript fetch videoId
           = ([Fetch (timedtext_url videoId)], Inr (parseYouTubeTranscriptXML xmlText))"
proof -
  from assms(4) have "parseYouTubeTranscriptXML xmlText \<noteq> []" by auto
  with assms have "attempt fetch (timedtext_url videoId) ''Direct API call failed, trying proxy...''
      = ([Fetch (timedtext_url videoId)], Some (parseYouTubeTranscriptXML xmlText))"
    by (simp add: attempt_def try_fetch_transcript_def Let_def)
  then show ?thesis by (simp add: getYouTubeTranscript_def)
qed

theorem getYouTubeTranscript_short_circuit_witness:
  "50 < length (parseYouTubeTranscriptXML
            ['' We are no strangers to love. '', '' '', ''You know the rules and so do I.''])
   \<and> getYouTubeTranscript
        (fetch_direct_only ''dQw4w9WgXcQ''
           ['' We are no strangers to love. '', '' '', ''You know the rules and so do I.''])
        ''dQw4w9WgXcQ''
       = ([Fetch ''https://www.youtube.com/api/timedtext?lang=en&v=dQw4w9WgXcQ''],
          Inr ''We are no strangers to love. You know the rules and so do I.'')"
proof -
  define texts where
    "texts = ['' We are no strangers to love. '', '' '', ''You know the rules and so do I.'']"
  have p: "parseYouTubeTranscriptXML texts
      = ''We are no strangers to love. You know the rules and so do I.''"
    unfolding texts_def by code_simp
  have len: "50 < length (parseYouTubeTranscriptXML texts)"
    unfolding p by simp
  have f: "fetch_direct_only ''dQw4w9WgXcQ'' texts (timedtext_url ''dQw4w9WgXcQ'')
      = Inr \<lparr>ok = True, text_of = Inr texts,
             json_of = Inl (Error ''SyntaxError'' ''Unexpected token < in JSON at position 0'')\<rparr>"
    by (simp add: fetch_direct_only_def xml_response_def)
  have "getYouTubeTranscript (fetch_direct_only ''dQw4w9WgXcQ'' texts) ''dQw4w9WgXcQ''
      = ([Fetch (timedtext_url ''dQw4w9WgXcQ'')], Inr (parseYouTubeTranscriptXML texts))"
    using getYouTubeTranscript_short_circuit [where fetch = "fetch_direct_only ''dQw4w9WgXcQ'' texts"
        and videoId = "''dQw4w9WgXcQ''" and xmlText = texts, OF f] len
    by simp
  then have "50 < length (parseYouTubeTranscriptXML texts)
      \<and> getYouTubeTranscript (fetch_direct_only ''dQw4w9WgXcQ'' texts) ''dQw4w9WgXcQ''
        = ([Fetch ''https://www.youtube.com/api/timedtext?lang=en&v=dQw4w9WgXcQ''],
           Inr ''We are no strangers to love. You know the rules and so do I.'')"
    by (simp add: p timedtext_url_def)
  then show ?thesis unfolding texts_def .
qed

text \<open>
  The claim as the specification states it takes a transcript of 50 characters: there the
  first strategy succeeds with a transcript of exactly 50 characters, and the function
  goes on to both proxies and fails.
\<close>

theorem getYouTubeTranscript_length_50_counterexample:
  "strategy_fails (fetch_direct_only ''dQw4w9WgXcQ''
        [''Never gonna give you up, never gonna let you down.''])
     (timedtext_url ''dQw4w9WgXcQ'')
   \<and> 50 \<le> length (parseYouTubeTranscriptXML [''Never gonna give you up, never gonna let you down.''])
   \<and> getYouTubeTranscript
        (fetch_direct_only ''dQw4w9WgXcQ'' [''Never gonna give you up, never gonna let you down.''])
        ''dQw4w9WgXcQ''
       = ([Fetch (timedtext_url ''dQw4w9WgXcQ''),
           Fetch (codetabs_url ''dQw4w9WgXcQ''),
           ConsoleLog ''Proxy method failed, trying alternative...'',
           Fetch (cors_anywhere_url ''dQw4w9WgXcQ''),
           ConsoleLog ''Alternative proxy failed''],
          Inl TranscriptUnavailable)"
proof -
  define texts where "texts = [''Never gonna give you up, never gonna let you down.'']"
  have p: "parseYouTubeTranscriptXML texts = ''Never gonna give you up, never gonna let you down.''"
    unfolding texts_def by code_simp
  have u: "codetabs_url ''dQw4w9WgXcQ'' \<noteq> timedtext_url ''dQw4w9WgXcQ''"
    "cors_anywhere_url ''dQw4w9WgXcQ'' \<noteq> timedtext_url ''dQw4w9WgXcQ''"
    by (simp_all add: codetabs_url_def cors_anywhere_url_def timedtext_url_def)
  have 1: "attempt (fetch_direct_only ''dQw4w9WgXcQ'' texts) (timedtext_url ''dQw4w9WgXcQ'')
      ''Direct API call failed, trying proxy...'' = ([Fetch (timedtext_url ''dQw4w9WgXcQ'')], None)"
    by (simp add: attempt_def try_fetch_transcript_def fetch_direct_only_def xml_response_def p)
  have 2: "attempt (fetch_direct_only ''dQw4w9WgXcQ'' texts) (codetabs_url ''dQw4w9WgXcQ'') line
      = ([Fetch (codetabs_url ''dQw4w9WgXcQ''), ConsoleLog line], None)" for line
    using u by (simp add: attempt_def try_fetch_transcript_def fetch_direct_only_def rejected_def)
  have 3: "attempt (fetch_direct_only ''dQw4w9WgXcQ'' texts) (cors_anywhere_url ''dQw4w9WgXcQ'') line
      = ([Fetch (cors_anywhere_url ''dQw4w9WgXcQ''), ConsoleLog line], None)" for line
    using u by (simp add: attempt_def try_fetch_transcript_def fetch_direct_only_def rejected_def)
  have "strategy_fails (fetch_direct_only ''dQw4w9WgXcQ'' texts) (timedtext_url ''dQw4w9WgXcQ'')"
    by (simp add: strategy_fails_def fetch_direct_only_def xml_response_def p)
  moreover have "50 \<le> length (parseYouTubeTranscriptXML texts)"
    unfolding p by simp
  moreover have "getYouTubeTranscript (fetch_direct_only ''dQw4w9WgXcQ'' texts) ''dQw4w9WgXcQ''
      = ([Fetch (timedtext_url ''dQw4w9WgXcQ''),
          Fetch (codetabs_url ''dQw4w9WgXcQ''),
          ConsoleLog ''Proxy method failed, trying alternative...'',
          Fetch (cors_anywhere_url ''dQw4w9WgXcQ''),
          ConsoleLog ''Alternative proxy failed''],
         Inl TranscriptUnavailable)"
    unfolding getYouTubeTranscript_def 1 2 3 by simp
  ultimately show ?thesis unfolding texts_def by blast
qed

text \<open>
  C3. If each of the three retrieval strategies fails or yields a transcript below the
  acceptance threshold, \<^verbatim>\<open>getYouTubeTranscript\<close> has made the three requests in their order
  and throws the one aggregated error with the guidance text, whatever the errors of the
  strategies were.
\<close>

theorem getYouTubeTranscript_all_fail:
  assumes "strategy_fails fetch (timedtext_url videoId)"
    and "strategy_fails fetch (codetabs_url videoId)"
    and "strategy_fails fetch (cors_anywhere_url videoId)"
  shows "snd (getYouTubeTranscript fetch videoId) = Inl TranscriptUnavailable
     \<and> filter (\<lambda>e. \<exists>u. e = Fetch u) (fst (getYouTubeTranscript fetch videoId))
         = [Fetch (timedtext_url videoId), Fetch (codetabs_url videoId),
            Fetch (cors_anywhere_url videoId)]
     \<and> TranscriptUnavailable = Error ''Error''
         (''Unable to fetch transcript due to CORS restrictions. '' @
          ''Please set up a backend service (see README.md) or use a browser extension that disables CORS. '' @
          ''Alternatively, ensure the video has captions enabled.'')"
proof -
  note n = assms [THEN attempt_fails]
  have "snd (getYouTubeTranscript fetch videoId) = Inl TranscriptUnavailable"
    by (simp add: getYouTubeTranscript_def Let_def split_def n)
  moreover have "filter (\<lambda>e. \<exists>u. e = Fetch u) (fst (getYouTubeTranscript fetch videoId))
         = [Fetch (timedtext_url videoId), Fetch (codetabs_url videoId),
            Fetch (cors_anywhere_url videoId)]"
    by (simp add: getYouTubeTranscript_def Let_def split_def n attempt_fetches)
  ultimately show ?thesis
    by (simp add: TranscriptUnavailable_def new_Error_def)
qed

theorem getYouTubeTranscript_all_fail_witness:
  "strategy_fails fetch_offline (timedtext_url ''dQw4w9WgXcQ'')
   \<and> strategy_fails fetch_offline (codetabs_url ''dQw4w9WgXcQ'')
   \<and> strategy_fails fetch_offline (cors_anywhere_url ''dQw4w9WgXcQ'')
   \<and> fetch_offline (timedtext_url ''dQw4w9WgXcQ'') = Inl (Error ''TypeError'' ''Failed to fetch'')
   \<and> snd (getYouTubeTranscript fetch_offline ''dQw4w9WgXcQ'') = Inl TranscriptUnavailable
   \<and> TranscriptUnavailable \<noteq> Error ''TypeError'' ''Failed to fetch''"
proof -
  have f: "strategy_fails fetch_offline url" for url
    by (simp add: strategy_fails_def fetch_offline_def rejected_def)
  from getYouTubeTranscript_all_fail [OF f f f, of "''dQw4w9WgXcQ''"] f show ?thesis
    by (simp add: fetch_offline_def rejected_def TranscriptUnavailable_def new_Error_def)
qed

section \<open>URL validation and the video id\<close>

lemma idchar_not_sep: "isIdChar c \<Longrightarrow> \<not> isQuerySep c"
  by (auto simp: isIdChar_def isQuerySep_def)

lemma idchar_not_slash: "isIdChar c \<Longrightarrow> c \<noteq> CHR ''/''"
  by (auto simp: isIdChar_def)

lemma strip_prefix_Some: "strip_prefix l s = Some r \<longleftrightarrow> s = l @ r"
  by (induction l s rule: strip_prefix.induct) auto

lemma scan_group:
  assumes "\<And>t g rest. (g, rest) \<in> set (rmatch r t) \<Longrightarrow> P g"
    and "scan r s = Some g"
  shows "P g"
  using assms(2)
proof (induction s)
  case Nil
  then show ?case using assms(1) [of g _ "[]"] by (auto split: list.splits)
next
  case (Cons c s)
  then show ?case using assms(1) [of g _ "c # s"] by (auto split: list.splits)
qed

lemma lit_then_id_capture:
  "(g, rest) \<in> set (rmatch (Seq (Lit l) (Grp (ClsRep isIdChar 11))) t)
     \<Longrightarrow> \<exists>v. g = [Some v] \<and> is_id v"
  by (auto simp: is_id_def split: if_splits option.splits)

lemma query_id_capture:
  "(g, rest) \<in> set (rmatch (Seq (Cls isQuerySep) (Seq (Lit l) (Grp (ClsRep isIdChar 11)))) t)
     \<Longrightarrow> \<exists>v. g = [Some v] \<and> is_id v"
  by (auto simp: is_id_def split: if_splits option.splits list.splits)

lemma scan_query_capture:
  "scan (Seq (Cls isQuerySep) (Seq (Lit ''v='') (Grp (ClsRep isIdChar 11)))) url = Some g
     \<Longrightarrow> \<exists>v. g = [Some v] \<and> is_id v"
  by (rule scan_group [where P = "\<lambda>g. \<exists>v. g = [Some v] \<and> is_id v"]) (rule query_id_capture)

lemma scan_lit_capture:
  "scan (Seq (Lit l) (Grp (ClsRep isIdChar 11))) url = Some g \<Longrightarrow> \<exists>v. g = [Some v] \<and> is_id v"
  by (rule scan_group [where P = "\<lambda>g. \<exists>v. g = [Some v] \<and> is_id v"]) (rule lit_then_id_capture)

lemma extract_is_id:
  assumes "extractYouTubeVideoId url = Some v"
  shows "is_id v"
  using assms unfolding extractYouTubeVideoId_def video_id_patterns_def
  by (auto split: option.splits list.splits dest!: scan_query_capture scan_lit_capture)

lemma extract_None:
  "extractYouTubeVideoId url = None \<longleftrightarrow>
     scan (Seq (Cls isQuerySep) (Seq (Lit ''v='') (Grp (ClsRep isIdChar 11)))) url = None
     \<and> scan (Seq (Lit ''youtu.be/'') (Grp (ClsRep isIdChar 11))) url = None
     \<and> scan (Seq (Lit ''embed/'') (Grp (ClsRep isIdChar 11))) url = None"
  unfolding extractYouTubeVideoId_def video_id_patterns_def
  by (auto split: option.splits list.splits dest!: scan_query_capture scan_lit_capture)

lemma seq_Lit: "rmatch (Seq (Lit l) r) s \<noteq> [] \<longleftrightarrow> (\<exists>t. s = l @ t \<and> rmatch r t \<noteq> [])"
proof (cases "strip_prefix l s")
  case None
  then have "s \<noteq> l @ t" for t
    using strip_prefix_Some [of l s t] by simp
  with None show ?thesis by simp
next
  case (Some b)
  then have "s = l @ b" by (simp add: strip_prefix_Some)
  with Some show ?thesis by auto
qed

lemma seq_Opt:
  "rmatch (Seq (Opt a) r) s \<noteq> [] \<longleftrightarrow> rmatch (Seq a r) s \<noteq> [] \<or> rmatch r s \<noteq> []"
  by (auto simp: split_def)

lemma seq_Grp: "rmatch (Seq (Grp a) r) s \<noteq> [] \<longleftrightarrow> rmatch (Seq a r) s \<noteq> []"
  by (auto simp: split_def)

lemma seq_Alt:
  "rmatch (Seq (Alt a b) r) s \<noteq> [] \<longleftrightarrow> rmatch (Seq a r) s \<noteq> [] \<or> rmatch (Seq b r) s \<noteq> []"
  by (auto simp: split_def)

lemma exec_Anchored: "regex_exec (Anchored r) s \<noteq> None \<longleftrightarrow> rmatch r s \<noteq> []"
  by (auto split: list.splits)

text \<open>
  An accepted URL starts with one of twelve literal prefixes and an id; scanning that
  prefix finds one of the three id patterns.
\<close>

lemma valid_extract:
  assumes "isValidYouTubeURL url"
  shows "extractYouTubeVideoId url \<noteq> None"
proof -
  have g: "rmatch (Grp (ClsRep isIdChar 11)) t \<noteq> []
      \<longleftrightarrow> 11 \<le> length t \<and> list_all isIdChar (take 11 t)" for t
    by simp
  from assms
  have "regex_test (youtube_url_patterns ! 0) url \<or> regex_test (youtube_url_patterns ! 1) url"
    by (simp add: isValidYouTubeURL_def youtube_url_patterns_def)
  then show ?thesis
    unfolding youtube_url_patterns_def regex_test_def nth_Cons_0 nth_Cons_Suc One_nat_def seqs.simps
      exec_Anchored seq_Lit seq_Opt seq_Grp seq_Alt g
    by (elim disjE exE conjE; simp add: extract_None isQuerySep_def)
qed

lemma scan_query_ids:
  "list_all isIdChar s \<Longrightarrow>
     scan (Seq (Cls isQuerySep) (Seq (Lit ''v='') (Grp (ClsRep isIdChar 11)))) s = None"
  by (induction s) (auto simp: idchar_not_sep)

lemma lit_in_set:
  assumes "rmatch (Seq (Lit l) r) s \<noteq> []"
  shows "set l \<subseteq> set s"
proof -
  from assms obtain t where "s = l @ t" unfolding seq_Lit by blast
  then show ?thesis by auto
qed

lemma scan_lit_ids:
  assumes "list_all isIdChar s" and "CHR ''/'' \<in> set l"
  shows "scan (Seq (Lit l) r) s = None"
  using assms(1)
proof (induction s)
  case Nil
  have "rmatch (Seq (Lit l) r) [] = []"
  proof (rule ccontr)
    assume "rmatch (Seq (Lit l) r) [] \<noteq> []"
    then have "set l \<subseteq> set []" by (rule lit_in_set)
    with assms(2) show False by auto
  qed
  then show ?case by (simp del: rmatch.simps)
next
  case (Cons c s)
  have "rmatch (Seq (Lit l) r) (c # s) = []"
  proof (rule ccontr)
    assume "rmatch (Seq (Lit l) r) (c # s) \<noteq> []"
    then have "CHR ''/'' \<in> set (c # s)" using lit_in_set assms(2) by blast
    with Cons.prems show False by (auto simp: list_all_iff dest: idchar_not_slash)
  qed
  with Cons show ?case by (simp del: rmatch.simps)
qed

lemma extract_shapes:
  assumes "is_id videoId"
    and "scheme \<in> {''http'', ''https''}" and "www \<in> {[], ''www.''}"
  shows "extractYouTubeVideoId (scheme @ ''://'' @ www @ ''youtube.com/watch?v='' @ videoId) = Some videoId"
    and "extractYouTubeVideoId (scheme @ ''://'' @ www @ ''youtu.be/'' @ videoId) = Some videoId"
    and "extractYouTubeVideoId (scheme @ ''://'' @ www @ ''youtube.com/embed/'' @ videoId) = Some videoId"
    and "isValidYouTubeURL (scheme @ ''://'' @ www @ ''youtube.com/watch?v='' @ videoId)"
    and "isValidYouTubeURL (scheme @ ''://'' @ www @ ''youtu.be/'' @ videoId)"
    and "isValidYouTubeURL (scheme @ ''://'' @ www @ ''youtube.com/embed/'' @ videoId)"
proof -
  from assms(1) have len: "length videoId = 11" and ids: "list_all isIdChar videoId"
    by (simp_all add: is_id_def)
  have q: "scan (Seq (Cls isQuerySep) (Seq (Lit ''v='') (Grp (ClsRep isIdChar 11)))) videoId = None"
    using ids by (rule scan_query_ids)
  have y: "scan (Seq (Lit ''youtu.be/'') (Grp (ClsRep isIdChar 11))) videoId = None"
    using ids by (rule scan_lit_ids) simp
  show "extractYouTubeVideoId (scheme @ ''://'' @ www @ ''youtube.com/watch?v='' @ videoId) = Some videoId"
    using assms(2,3) len ids
    by (auto simp: extractYouTubeVideoId_def video_id_patterns_def isQuerySep_def)
  show "extractYouTubeVideoId (scheme @ ''://'' @ www @ ''youtu.be/'' @ videoId) = Some videoId"
    using assms(2,3) len ids q
    by (auto simp: extractYouTubeVideoId_def video_id_patterns_def isQuerySep_def)
  show "extractYouTubeVideoId (scheme @ ''://'' @ www @ ''youtube.com/embed/'' @ videoId) = Some videoId"
    using assms(2,3) len ids q y
    by (auto simp: extractYouTubeVideoId_def video_id_patterns_def isQuerySep_def)
  show "isValidYouTubeURL (scheme @ ''://'' @ www @ ''youtube.com/watch?v='' @ videoId)"
    using assms(2,3) len ids
    by (auto simp: isValidYouTubeURL_def youtube_url_patterns_def regex_test_def)
  show "isValidYouTubeURL (scheme @ ''://'' @ www @ ''youtu.be/'' @ videoId)"
    using assms(2,3) len ids
    by (auto simp: isValidYouTubeURL_def youtube_url_patterns_def regex_test_def)
  show "isValidYouTubeURL (scheme @ ''://'' @ www @ ''youtube.com/embed/'' @ videoId)"
    using assms(2,3) len ids
    by (auto simp: isValidYouTubeURL_def youtube_url_patterns_def regex_test_def)
qed

lemma sample_is_id: "is_id ''dQw4w9WgXcQ''"
  by (simp add: is_id_def isIdChar_def)

lemma scan_query_skip_ids:
  "list_all isIdChar s \<Longrightarrow>
     scan (Seq (Cls isQuerySep) (Seq (Lit ''v='') (Grp (ClsRep isIdChar 11)))) (s @ tail)
       = scan (Seq (Cls isQuerySep) (Seq (Lit ''v='') (Grp (ClsRep isIdChar 11)))) tail"
proof (induction s)
  case Nil
  show ?case by simp
next
  case (Cons c s)
  then have "\<not> isQuerySep c" by (simp add: idchar_not_sep)
  with Cons show ?case by simp
qed

lemma first_pattern_test:
  "regex_test (video_id_patterns ! 0) s
     \<longleftrightarrow> scan (Seq (Cls isQuerySep) (Seq (Lit ''v='') (Grp (ClsRep isIdChar 11)))) s \<noteq> None"
  by (simp add: video_id_patterns_def regex_test_def)

lemma second_pattern_test:
  "regex_test (video_id_patterns ! 1) s
     \<longleftrightarrow> scan (Seq (Lit ''youtu.be/'') (Grp (ClsRep isIdChar 11))) s \<noteq> None"
  by (simp add: video_id_patterns_def regex_test_def)

lemma extract_shapes_tail:
  assumes "is_id videoId"
    and "scheme \<in> {''http'', ''https''}" and "www \<in> {[], ''www.''}"
  shows "extractYouTubeVideoId (scheme @ ''://'' @ www @ ''youtube.com/watch?v='' @ videoId @ tail)
           = Some videoId"
    and "\<not> regex_test (video_id_patterns ! 0) tail \<Longrightarrow>
         extractYouTubeVideoId (scheme @ ''://'' @ www @ ''youtu.be/'' @ videoId @ tail) = Some videoId"
    and "\<not> regex_test (video_id_patterns ! 0) tail \<Longrightarrow>
         \<not> regex_test (video_id_patterns ! 1) (videoId @ tail) \<Longrightarrow>
         extractYouTubeVideoId (scheme @ ''://'' @ www @ ''youtube.com/embed/'' @ videoId @ tail)
           = Some videoId"
    and "isValidYouTubeURL (scheme @ ''://'' @ www @ ''youtube.com/watch?v='' @ videoId @ tail)"
    and "isValidYouTubeURL (scheme @ ''://'' @ www @ ''youtu.be/'' @ videoId @ tail)"
    and "isValidYouTubeURL (scheme @ ''://'' @ www @ ''youtube.com/embed/'' @ videoId @ tail)"
proof -
  from assms(1) have len: "length videoId = 11" and ids: "list_all isIdChar videoId"
    by (simp_all add: is_id_def)
  note q = scan_query_skip_ids [OF ids, of tail]
  show "extractYouTubeVideoId (scheme @ ''://'' @ www @ ''youtube.com/watch?v='' @ videoId @ tail)
           = Some videoId"
    using assms(2,3) len ids
    by (auto simp: extractYouTubeVideoId_def video_id_patterns_def isQuerySep_def)
  show "extractYouTubeVideoId (scheme @ ''://'' @ www @ ''youtu.be/'' @ videoId @ tail) = Some videoId"
    if "\<not> regex_test (video_id_patterns ! 0) tail"
    using assms(2,3) len ids q that unfolding first_pattern_test
    by (auto simp: extractYouTubeVideoId_def video_id_patterns_def isQuerySep_def)
  show "extractYouTubeVideoId (scheme @ ''://'' @ www @ ''youtube.com/embed/'' @ videoId @ tail)
           = Some videoId"
    if "\<not> regex_test (video_id_patterns ! 0) tail"
      and "\<not> regex_test (video_id_patterns ! 1) (videoId @ tail)"
    using assms(2,3) len ids q that unfolding first_pattern_test second_pattern_test
    by (auto simp: extractYouTubeVideoId_def video_id_patterns_def isQuerySep_def)
  show "isValidYouTubeURL (scheme @ ''://'' @ www @ ''youtube.com/watch?v='' @ videoId @ tail)"
    using assms(2,3) len ids
    by (auto simp: isValidYouTubeURL_def youtube_url_patterns_def regex_test_def)
  show "isValidYouTubeURL (scheme @ ''://'' @ www @ ''youtu.be/'' @ videoId @ tail)"
    using assms(2,3) len ids
    by (auto simp: isValidYouTubeURL_def youtube_url_patterns_def regex_test_def)
  show "isValidYouTubeURL (scheme @ ''://'' @ www @ ''youtube.com/embed/'' @ videoId @ tail)"
    using assms(2,3) len ids
    by (auto simp: isValidYouTubeURL_def youtube_url_patterns_def regex_test_def)
qed

text \<open>
  C7, as the code has it. For every id of 11 characters of the class \<^verbatim>\<open>[a-zA-Z0-9_-]\<close>, with
  either scheme, with or without \<^verbatim>\<open>www.\<close>, and whatever text follows the id, the watch URL,
  the short link and the embed URL are accepted by \<^verbatim>\<open>isValidYouTubeURL\<close>. From the watch
  URL \<^verbatim>\<open>extractYouTubeVideoId\<close> returns the id, whatever follows it. From the short link it
  returns the id when the first id pattern (\<^verbatim>\<open>?v=\<close> or \<^verbatim>\<open>&v=\<close> and 11 id characters) finds
  nothing in the text behind the id. From the embed URL it returns the id when moreover
  the second id pattern (\<^verbatim>\<open>youtu.be/\<close> and 11 id characters) finds nothing in the id and the
  text behind it. The URLs that end in the id are among these. For
  \<^verbatim>\<open>https://www.youtube.com/watch?v=dQw4w9WgXcQ\<close> the classifier says YouTube and the
  extractor returns \<^verbatim>\<open>dQw4w9WgXcQ\<close>.
\<close>

theorem extractYouTubeVideoId_same_id_tail:
  assumes "is_id videoId"
    and "scheme \<in> {''http'', ''https''}" and "www \<in> {[], ''www.''}"
  shows "isValidYouTubeURL (scheme @ ''://'' @ www @ ''youtube.com/watch?v='' @ videoId @ tail)
     \<and> isValidYouTubeURL (scheme @ ''://'' @ www @ ''youtu.be/'' @ videoId @ tail)
     \<and> isValidYouTubeURL (scheme @ ''://'' @ www @ ''youtube.com/embed/'' @ videoId @ tail)
     \<and> extractYouTubeVideoId (scheme @ ''://'' @ www @ ''youtube.com/watch?v='' @ videoId @ tail)
         = Some videoId
     \<and> (\<not> regex_test (video_id_patterns ! 0) tail \<longrightarrow>
          extractYouTubeVideoId (scheme @ ''://'' @ www @ ''youtu.be/'' @ videoId @ tail)
            = Some videoId)
     \<and> (\<not> regex_test (video_id_patterns ! 0) tail
          \<and> \<not> regex_test (video_id_patterns ! 1) (videoId @ tail) \<longrightarrow>
          extractYouTubeVideoId (scheme @ ''://'' @ www @ ''youtube.com/embed/'' @ videoId @ tail)
            = Some videoId)
     \<and> extractYouTubeVideoId (scheme @ ''://'' @ www @ ''youtube.com/watch?v='' @ videoId) = Some videoId
     \<and> extractYouTubeVideoId (scheme @ ''://'' @ www @ ''youtu.be/'' @ videoId) = Some videoId
     \<and> extractYouTubeVideoId (scheme @ ''://'' @ www @ ''youtube.com/embed/'' @ videoId) = Some videoId
     \<and> isValidYouTubeURL ''https://www.youtube.com/watch?v=dQw4w9WgXcQ''
     \<and> extractYouTubeVideoId ''https://www.youtube.com/watch?v=dQw4w9WgXcQ'' = Some ''dQw4w9WgXcQ''"
proof -
  have "isValidYouTubeURL ''https://www.youtube.com/watch?v=dQw4w9WgXcQ''"
    using extract_shapes(4) [OF sample_is_id, of "''https''" "''www.''"] by simp
  moreover have "extractYouTubeVideoId ''https://www.youtube.com/watch?v=dQw4w9WgXcQ'' = Some ''dQw4w9WgXcQ''"
    using extract_shapes(1) [OF sample_is_id, of "''https''" "''www.''"] by simp
  ultimately show ?thesis
    using extract_shapes_tail [OF assms, of tail] extract_shapes(1-3) [OF assms] by simp
qed

theorem extractYouTubeVideoId_same_id_tail_witness:
  "is_id ''a-b_c0123XY''
   \<and> \<not> regex_test (video_id_patterns ! 0) ''?t=42&feature=share''
   \<and> \<not> regex_test (video_id_patterns ! 1) (''a-b_c0123XY'' @ ''?t=42&feature=share'')
   \<and> extractYouTubeVideoId ''http://youtube.com/watch?v=a-b_c0123XY?t=42&feature=share''
       = Some ''a-b_c0123XY''
   \<and> extractYouTubeVideoId ''http://youtu.be/a-b_c0123XY?t=42&feature=share'' = Some ''a-b_c0123XY''
   \<and> extractYouTubeVideoId ''http://youtube.com/embed/a-b_c0123XY?t=42&feature=share''
       = Some ''a-b_c0123XY''
   \<and> extractYouTubeVideoId ''http://youtu.be/a-b_c0123XY'' = Some ''a-b_c0123XY''
   \<and> isValidYouTubeURL ''http://youtu.be/a-b_c0123XY?t=42&feature=share''"
proof -
  have i: "is_id ''a-b_c0123XY''"
    by (simp add: is_id_def isIdChar_def)
  have t: "\<not> regex_test (video_id_patterns ! 0) ''?t=42&feature=share''"
    "\<not> regex_test (video_id_patterns ! 1) (''a-b_c0123XY'' @ ''?t=42&feature=share'')"
    by (simp_all add: video_id_patterns_def regex_test_def isQuerySep_def)
  from extractYouTubeVideoId_same_id_tail [OF i, of "''http''" "[]" "''?t=42&feature=share''"] i t
  show ?thesis by simp
qed

text \<open>
  The claim as the specification states it puts no condition on what follows the id.
  The short link of the id \<^verbatim>\<open>dQw4w9WgXcQ\<close> followed by \<^verbatim>\<open>?v=AAAAAAAAAAA\<close> is accepted by the
  classifier, and the extractor returns \<^verbatim>\<open>AAAAAAAAAAA\<close>: the query pattern is tried first.
  The watch URL of the same id gives \<^verbatim>\<open>dQw4w9WgXcQ\<close>, so the shapes disagree. An embed URL
  whose id ends in \<^verbatim>\<open>youtu\<close> and is followed by \<^verbatim>\<open>.be/AAAAAAAAAAA\<close> loses to the second
  pattern in the same way.
\<close>

theorem extractYouTubeVideoId_tail_counterexample:
  "is_id ''dQw4w9WgXcQ''
   \<and> isValidYouTubeURL ''https://youtu.be/dQw4w9WgXcQ?v=AAAAAAAAAAA''
   \<and> extractYouTubeVideoId ''https://youtu.be/dQw4w9WgXcQ?v=AAAAAAAAAAA'' = Some ''AAAAAAAAAAA''
   \<and> extractYouTubeVideoId ''https://youtu.be/dQw4w9WgXcQ?v=AAAAAAAAAAA'' \<noteq> Some ''dQw4w9WgXcQ''
   \<and> extractYouTubeVideoId ''https://www.youtube.com/watch?v=dQw4w9WgXcQ'' = Some ''dQw4w9WgXcQ''
   \<and> is_id ''dQw4w9youtu''
   \<and> isValidYouTubeURL ''https://www.youtube.com/embed/dQw4w9youtu.be/AAAAAAAAAAA''
   \<and> extractYouTubeVideoId ''https://www.youtube.com/embed/dQw4w9youtu.be/AAAAAAAAAAA''
       = Some ''AAAAAAAAAAA''"
  by (simp add: isValidYouTubeURL_def youtube_url_patterns_def regex_test_def is_id_def
      extractYouTubeVideoId_def video_id_patterns_def isIdChar_def isQuerySep_def)

section \<open>The metadata fetcher and the pipeline\<close>

lemma getYouTubeVideoInfo_returns:
  "\<exists>info. snd (getYouTubeVideoInfo fetch videoId) = Inr info"
  by (simp add: getYouTubeVideoInfo_def split: sum.splits)

lemma metadata_fails_fallback:
  "metadata_fails fetch videoId \<Longrightarrow> snd (getYouTubeVideoInfo fetch videoId) = Inr fallback_info"
  by (auto simp: metadata_fails_def getYouTubeVideoInfo_def try_video_info_def
      split: sum.splits if_splits)

lemma generateSummary_accepts:
  "50 < length transcript \<Longrightarrow> \<exists>s. generateSummary transcript = Inr s"
  by (auto simp: generateSummary_def Let_def)

text \<open>The \<^verbatim>\<open>try\<close> block on a URL that has a video id, by the outcome of its three calls.\<close>

lemma try_summarize_youtube:
  assumes "isValidYouTubeURL url" and "extractYouTubeVideoId url = Some videoId"
    and "snd (getYouTubeVideoInfo fetch videoId) = Inr info"
  shows "snd (try_summarize fetch url) =
     (case snd (getYouTubeTranscript fetch videoId) of
        Inl e \<Rightarrow> Inl e
      | Inr transcript \<Rightarrow>
          (case generateSummary transcript of
             Inl e \<Rightarrow> Inl e
           | Inr s \<Rightarrow> Inr (Results info s transcript)))"
proof -
  from assms(2) have "is_id videoId" by (rule extract_is_id)
  then have ne: "videoId \<noteq> []" by (auto simp: is_id_def)
  obtain t1 where i: "getYouTubeVideoInfo fetch videoId = (t1, Inr info)"
    using assms(3) by (cases "getYouTubeVideoInfo fetch videoId") simp
  obtain t2 r where t: "getYouTubeTranscript fetch videoId = (t2, r)"
    by (cases "getYouTubeTranscript fetch videoId")
  from getYouTubeTranscript_result [of fetch videoId] t
  have "r = Inl TranscriptUnavailable \<or> (\<exists>x. r = Inr x \<and> 50 < length x)" by simp
  then show ?thesis
    using assms(1,2) ne i t
    by (auto simp: try_summarize_def split: sum.splits)
qed

text \<open>
  C8. \<^verbatim>\<open>getYouTubeVideoInfo\<close> always returns a record and never throws. When the request
  fails (network error, a response that is not a 2xx one, a body that is not JSON or is
  \<^verbatim>\<open>null\<close>) the record is the fixed fallback. Such a failure does not abort the pipeline: on an accepted
  URL the page then shows the error of the transcript fetcher if that one fails, and
  otherwise the results, with the fallback as the video information.
\<close>

theorem getYouTubeVideoInfo_fallback:
  "(\<exists>info. snd (getYouTubeVideoInfo fetch videoId) = Inr info)
   \<and> (metadata_fails fetch videoId \<longrightarrow>
        snd (getYouTubeVideoInfo fetch videoId) = Inr fallback_info)
   \<and> fallback_info = \<lparr>title = Value (JString ''Video''), author = Value (JString ''Unknown''),
                       thumbnail = Value JNull\<rparr>
   \<and> (metadata_fails fetch videoId \<and> isValidYouTubeURL url
        \<and> extractYouTubeVideoId url = Some videoId \<longrightarrow>
        (case snd (getYouTubeTranscript fetch videoId) of
           Inl e \<Rightarrow> e = TranscriptUnavailable
             \<and> snd (summarizeContent fetch url) = ErrorMessage (''Error: '' @ message e)
         | Inr transcript \<Rightarrow>
             (\<exists>s. generateSummary transcript = Inr s
                \<and> snd (summarizeContent fetch url) = Results fallback_info s transcript)))"
proof -
  have "case snd (getYouTubeTranscript fetch videoId) of
           Inl e \<Rightarrow> e = TranscriptUnavailable
             \<and> snd (summarizeContent fetch url) = ErrorMessage (''Error: '' @ message e)
         | Inr transcript \<Rightarrow>
             (\<exists>s. generateSummary transcript = Inr s
                \<and> snd (summarizeContent fetch url) = Results fallback_info s transcript)"
    if m: "metadata_fails fetch videoId" and v: "isValidYouTubeURL url"
      and x: "extractYouTubeVideoId url = Some videoId"
  proof -
    note b = try_summarize_youtube [OF v x metadata_fails_fallback [OF m]]
    from getYouTubeTranscript_result [of fetch videoId] show ?thesis
    proof
      assume e: "snd (getYouTubeTranscript fetch videoId) = Inl TranscriptUnavailable"
      with b have "snd (try_summarize fetch url) = Inl TranscriptUnavailable" by simp
      with e show ?thesis
        by (cases "try_summarize fetch url") (simp add: summarizeContent_def)
    next
      assume "\<exists>t. snd (getYouTubeTranscript fetch videoId) = Inr t \<and> 50 < length t"
      then obtain t where t: "snd (getYouTubeTranscript fetch videoId) = Inr t" "50 < length t"
        by blast
      from generateSummary_accepts [OF t(2)] obtain s where s: "generateSummary t = Inr s" ..
      with b t have "snd (try_summarize fetch url) = Inr (Results fallback_info s t)" by simp
      with t s show ?thesis
        by (cases "try_summarize fetch url") (simp add: summarizeContent_def)
    qed
  qed
  then show ?thesis
    using getYouTubeVideoInfo_returns [of fetch videoId] metadata_fails_fallback [of fetch videoId]
    by (simp add: fallback_info_def)
qed

theorem getYouTubeVideoInfo_fallback_witness:
  "metadata_fails
     (fetch_direct_only ''dQw4w9WgXcQ'' [''We are no strangers to love. You know the rules and so do I.''])
     ''dQw4w9WgXcQ''
   \<and> isValidYouTubeURL ''https://www.youtube.com/watch?v=dQw4w9WgXcQ''
   \<and> extractYouTubeVideoId ''https://www.youtube.com/watch?v=dQw4w9WgXcQ'' = Some ''dQw4w9WgXcQ''
   \<and> snd (getYouTubeVideoInfo
        (fetch_direct_only ''dQw4w9WgXcQ'' [''We are no strangers to love. You know the rules and so do I.''])
        ''dQw4w9WgXcQ'') = Inr fallback_info
   \<and> (\<exists>s. snd (summarizeContent
        (fetch_direct_only ''dQw4w9WgXcQ'' [''We are no strangers to love. You know the rules and so do I.''])
        ''https://www.youtube.com/watch?v=dQw4w9WgXcQ'')
       = Results fallback_info s ''We are no strangers to love. You know the rules and so do I.'')"
proof -
  define texts where "texts = [''We are no strangers to love. You know the rules and so do I.'']"
  define f where "f = fetch_direct_only ''dQw4w9WgXcQ'' texts"
  have p: "parseYouTubeTranscriptXML texts
      = ''We are no strangers to love. You know the rules and so do I.''"
    unfolding texts_def by code_simp
  have m: "metadata_fails f ''dQw4w9WgXcQ''"
    by (simp add: f_def metadata_fails_def fetch_direct_only_def rejected_def oembed_url_def
        timedtext_url_def)
  have v: "isValidYouTubeURL ''https://www.youtube.com/watch?v=dQw4w9WgXcQ''"
    using extract_shapes(4) [OF sample_is_id, of "''https''" "''www.''"] by simp
  have x: "extractYouTubeVideoId ''https://www.youtube.com/watch?v=dQw4w9WgXcQ'' = Some ''dQw4w9WgXcQ''"
    using extract_shapes(1) [OF sample_is_id, of "''https''" "''www.''"] by simp
  have t: "snd (getYouTubeTranscript f ''dQw4w9WgXcQ'')
      = Inr ''We are no strangers to love. You know the rules and so do I.''"
    by (simp add: f_def getYouTubeTranscript_def attempt_def try_fetch_transcript_def
        fetch_direct_only_def xml_response_def p)
  from getYouTubeVideoInfo_fallback
    [of f "''dQw4w9WgXcQ''" "''https://www.youtube.com/watch?v=dQw4w9WgXcQ''"] m v x
  have "snd (getYouTubeVideoInfo f ''dQw4w9WgXcQ'') = Inr fallback_info"
    and "\<exists>s. snd (summarizeContent f ''https://www.youtube.com/watch?v=dQw4w9WgXcQ'')
          = Results fallback_info s ''We are no strangers to love. You know the rules and so do I.''"
    unfolding t by auto
  with m v x show ?thesis unfolding f_def texts_def by blast
qed

text \<open>
  C9. For every URL that \<^verbatim>\<open>isValidYouTubeURL\<close> accepts, \<^verbatim>\<open>extractYouTubeVideoId\<close> returns an
  id of 11 characters of the class; so on such a URL \<^verbatim>\<open>summarizeContent\<close> never throws nor
  shows the error "Invalid YouTube URL format".
\<close>

theorem valid_url_has_video_id:
  assumes "isValidYouTubeURL url"
  shows "(\<exists>videoId. extractYouTubeVideoId url = Some videoId
            \<and> length videoId = 11 \<and> list_all isIdChar videoId)
     \<and> snd (try_summarize fetch url) \<noteq> Inl (new_Error ''Invalid YouTube URL format'')
     \<and> snd (summarizeContent fetch url) \<noteq> ErrorMessage ''Error: Invalid YouTube URL format''"
proof -
  from valid_extract [OF assms] obtain videoId where x: "extractYouTubeVideoId url = Some videoId"
    by blast
  then have i: "is_id videoId" by (rule extract_is_id)
  obtain info where "snd (getYouTubeVideoInfo fetch videoId) = Inr info"
    using getYouTubeVideoInfo_returns by blast
  note b = try_summarize_youtube [OF assms x this]
  have "snd (try_summarize fetch url) \<noteq> Inl (new_Error ''Invalid YouTube URL format'')
     \<and> snd (summarizeContent fetch url) \<noteq> ErrorMessage ''Error: Invalid YouTube URL format''"
    using getYouTubeTranscript_result [of fetch videoId]
  proof
    assume "snd (getYouTubeTranscript fetch videoId) = Inl TranscriptUnavailable"
    with b have "snd (try_summarize fetch url) = Inl TranscriptUnavailable" by simp
    then show ?thesis
      by (cases "try_summarize fetch url")
         (simp add: summarizeContent_def TranscriptUnavailable_def new_Error_def)
  next
    assume "\<exists>t. snd (getYouTubeTranscript fetch videoId) = Inr t \<and> 50 < length t"
    then obtain t where t: "snd (getYouTubeTranscript fetch videoId) = Inr t" "50 < length t"
      by blast
    from generateSummary_accepts [OF t(2)] obtain s where "generateSummary t = Inr s" ..
    with b t have "snd (try_summarize fetch url) = Inr (Results info s t)" by simp
    then show ?thesis
      by (cases "try_summarize fetch url") (simp add: summarizeContent_def)
  qed
  with x i show ?thesis by (simp add: is_id_def)
qed

theorem valid_url_has_video_id_witness:
  "isValidYouTubeURL ''https://youtu.be/dQw4w9WgXcQ?t=42''
   \<and> (\<exists>videoId. extractYouTubeVideoId ''https://youtu.be/dQw4w9WgXcQ?t=42'' = Some videoId
         \<and> length videoId = 11)
   \<and> snd (summarizeContent fetch_offline ''https://youtu.be/dQw4w9WgXcQ?t=42'')
       \<noteq> ErrorMessage ''Error: Invalid YouTube URL format''"
proof -
  have v: "isValidYouTubeURL ''https://youtu.be/dQw4w9WgXcQ?t=42''"
    by (simp add: isValidYouTubeURL_def youtube_url_patterns_def regex_test_def isIdChar_def)
  from valid_url_has_video_id [OF v, of fetch_offline] v show ?thesis
    by blast
qed

section \<open>The key points: counts, enumeration order and the stable sort\<close>

subsection \<open>Tokens are lower case\<close>

lemma upper_code: "c \<in> set ''ABCDEFGHIJKLMNOPQRSTUVWXYZ'' \<Longrightarrow> 65 \<le> (of_char c :: nat) \<and> (of_char c :: nat) \<le> 90"
  by auto

lemma toLowerCase_unit_not_upper: "toLowerCase_unit c \<notin> set ''ABCDEFGHIJKLMNOPQRSTUVWXYZ''"
proof
  assume u: "toLowerCase_unit c \<in> set ''ABCDEFGHIJKLMNOPQRSTUVWXYZ''"
  define n where "n = (of_char c :: nat)"
  from upper_code [OF u] have r: "65 \<le> (of_char (toLowerCase_unit c) :: nat)"
    "(of_char (toLowerCase_unit c) :: nat) \<le> 90" by simp_all
  show False
  proof (cases "(65 \<le> n \<and> n \<le> 90) \<or> (192 \<le> n \<and> n \<le> 222 \<and> n \<noteq> 215)")
    case True
    then have "toLowerCase_unit c = char_of (n + 32)"
      by (simp add: toLowerCase_unit_def n_def Let_def)
    moreover from True have "(n + 32) mod 256 = n + 32" by auto
    ultimately have "(of_char (toLowerCase_unit c) :: nat) = n + 32" by simp
    with r True show False by auto
  next
    case False
    then have "toLowerCase_unit c = c"
      unfolding toLowerCase_unit_def n_def Let_def by (simp only: if_False)
    with r False show False by (auto simp: n_def)
  qed
qed

lemma prototype_names_upper:
  "list_all (\<lambda>n. n = ''constructor'' \<or> n = ''__proto__''
       \<or> list_ex (\<lambda>c. c \<in> set ''ABCDEFGHIJKLMNOPQRSTUVWXYZ'') n) Object_prototype_names"
  by code_simp

lemma lower_prototype_names:
  assumes "w \<in> set Object_prototype_names"
    and "set w \<inter> set ''ABCDEFGHIJKLMNOPQRSTUVWXYZ'' = {}"
  shows "w = ''constructor'' \<or> w = ''__proto__''"
proof -
  from prototype_names_upper assms(1)
  have "w = ''constructor'' \<or> w = ''__proto__''
       \<or> list_ex (\<lambda>c. c \<in> set ''ABCDEFGHIJKLMNOPQRSTUVWXYZ'') w"
    unfolding list_all_iff by blast
  moreover from assms(2) have "\<not> list_ex (\<lambda>c. c \<in> set ''ABCDEFGHIJKLMNOPQRSTUVWXYZ'') w"
    unfolding list_ex_iff by blast
  ultimately show ?thesis by blast
qed

lemma split_scan_chars: "set (concat (split_scan sep cur s)) \<subseteq> set cur \<union> set s"
proof (induction sep cur s rule: split_scan.induct)
  case (1 sep cur)
  show ?case by simp
next
  case (2 sep cur c cs)
  show ?case
  proof (cases "sep c")
    case True
    with 2 have "set (concat (split_scan sep [] (dropWhile sep cs))) \<subseteq> set (dropWhile sep cs)"
      by simp
    also have "\<dots> \<subseteq> set cs" by (auto dest: set_dropWhileD)
    finally show ?thesis using True by auto
  next
    case False
    with 2 show ?thesis by auto
  qed
qed

lemma tokens_lower:
  assumes "w \<in> set (tokens text_in)"
  shows "set w \<inter> set ''ABCDEFGHIJKLMNOPQRSTUVWXYZ'' = {}"
proof -
  from assms obtain piece where p: "piece \<in> set (split_on isWhiteSpace (toLowerCase text_in))"
    and w: "w = filter isWordChar piece"
    by (auto simp: tokens_def)
  from p have "set piece \<subseteq> set (concat (split_scan isWhiteSpace [] (toLowerCase text_in)))"
    by (auto simp: split_on_def)
  also have "\<dots> \<subseteq> set (toLowerCase text_in)"
    using split_scan_chars [of isWhiteSpace "[]" "toLowerCase text_in"] by simp
  finally have "set w \<subseteq> toLowerCase_unit ` set text_in"
    using w by (auto simp: toLowerCase_def)
  then show ?thesis
    using toLowerCase_unit_not_upper by blast
qed

lemma tokens_not_inherited:
  assumes "''constructor'' \<notin> set (tokens text_in)" and "''__proto__'' \<notin> set (tokens text_in)"
    and "w \<in> set (tokens text_in)"
  shows "w \<notin> set Object_prototype_names"
  using assms lower_prototype_names [OF _ tokens_lower [OF assms(3)]] by metis

subsection \<open>The loop counts the tokens\<close>

lemma forEach_tokens:
  "foldl count_word wordFreq ws
     = foldl (\<lambda>obj w. assign obj w (incremented obj w)) wordFreq
         (filter (\<lambda>w. 4 < length w \<and> w \<notin> set stopWords) (map (filter isWordChar) ws))"
  by (induction ws arbitrary: wordFreq) (simp_all add: count_word_def Let_def)

lemma array_index_inj:
  assumes "isArrayIndex a" and "isArrayIndex b" and "index_value a = index_value b"
  shows "a = b"
proof -
  from assms(1) have "decimal_string (index_value a) = a"
    unfolding isArrayIndex_def if_bool_eq_conj by blast
  moreover from assms(2) have "decimal_string (index_value b) = b"
    unfolding isArrayIndex_def if_bool_eq_conj by blast
  ultimately show ?thesis using assms(3) by metis
qed

lemma first_encountered_snoc:
  "first_encountered (ws @ [w])
     = (if w \<in> set ws then first_encountered ws else first_encountered ws @ [w])"
  by (simp add: first_encountered_def)

lemma set_first_encountered: "set (first_encountered ws) = set ws"
  by (simp add: first_encountered_def)

lemma set_enumeration_order: "set (enumeration_order ws) = set ws"
  by (auto simp: enumeration_order_def set_first_encountered)

lemma enumeration_order_snoc:
  "enumeration_order (ws @ [w]) =
     (if w \<in> set ws then enumeration_order ws
      else if isArrayIndex w
      then insort_key index_value w (sort_key index_value (filter isArrayIndex (first_encountered ws)))
           @ filter (\<lambda>w. \<not> isArrayIndex w) (first_encountered ws)
      else enumeration_order ws @ [w])"
proof -
  have "sort_key index_value (filter isArrayIndex (first_encountered ws) @ [w])
      = insort_key index_value w (sort_key index_value (filter isArrayIndex (first_encountered ws)))"
    if "isArrayIndex w"
  proof -
    have i: "inj_on index_value (set (filter isArrayIndex (first_encountered ws) @ [w]))"
      using that by (auto intro!: inj_onI array_index_inj)
    then have j: "inj_on index_value (set (filter isArrayIndex (first_encountered ws)))"
      by (auto simp: inj_on_def)
    show ?thesis
      unfolding sort_key_conv_fold [OF i] sort_key_conv_fold [OF j] by simp
  qed
  then show ?thesis
    by (simp add: enumeration_order_def first_encountered_snoc)
qed

lemma insert_index_append:
  assumes "\<forall>p \<in> set P. isArrayIndex (fst p)" and "\<forall>q \<in> set Q. \<not> isArrayIndex (fst q)"
  shows "insert_index k v (P @ Q) = insort_key (index_value \<circ> fst) (k, v) P @ Q"
  using assms(1)
proof (induction P)
  case Nil
  with assms(2) show ?case by (cases Q) auto
next
  case (Cons p P)
  then show ?case by (cases p) (auto simp: not_le)
qed

lemma map_insort_key:
  assumes "\<And>x. fst (g x) = x"
  shows "map g (insort_key f w L) = insort_key (f \<circ> fst) (g w) (map g L)"
  by (induction L) (simp_all add: assms)

lemma map_of_tagged:
  "map_of (map (\<lambda>k. (k, f k)) xs) k = (if k \<in> set xs then Some (f k) else None)"
  by (induction xs) auto

lemma tally_invariant:
  assumes "\<forall>w \<in> set ws. w \<notin> set Object_prototype_names"
  shows "foldl (\<lambda>obj w. assign obj w (incremented obj w)) [] ws
           = map (\<lambda>k. (k, Num (count_list ws k))) (enumeration_order ws)"
  using assms
proof (induction ws rule: rev_induct)
  case Nil
  show ?case by (simp add: enumeration_order_def first_encountered_def)
next
  case (snoc w ws)
  define obj where "obj = map (\<lambda>k. (k, Num (count_list ws k))) (enumeration_order ws)"
  define I where "I = sort_key index_value (filter isArrayIndex (first_encountered ws))"
  define N where "N = filter (\<lambda>w. \<not> isArrayIndex w) (first_encountered ws)"
  have eo: "enumeration_order ws = I @ N" by (simp add: enumeration_order_def I_def N_def)
  from snoc have fold: "foldl (\<lambda>obj w. assign obj w (incremented obj w)) [] ws = obj"
    by (simp add: obj_def)
  have look: "map_of obj k = (if k \<in> set ws then Some (Num (count_list ws k)) else None)" for k
    unfolding obj_def map_of_tagged set_enumeration_order ..
  from snoc.prems have proto: "w \<notin> set Object_prototype_names" by simp
  then have np: "w \<noteq> ''__proto__''" by (auto simp: Object_prototype_names_def)
  have "assign obj w (incremented obj w)
      = map (\<lambda>k. (k, Num (count_list (ws @ [w]) k))) (enumeration_order (ws @ [w]))"
  proof (cases "w \<in> set ws")
    case True
    then have "assign obj w (incremented obj w)
        = map (\<lambda>(k', v'). if k' = w then (k', Num (count_list ws w + 1)) else (k', v')) obj"
      by (auto simp: assign_def incremented_def look)
    also have "\<dots> = map (\<lambda>k. (k, Num (count_list (ws @ [w]) k))) (enumeration_order ws)"
      by (auto simp: obj_def)
    finally show ?thesis using True by (simp add: enumeration_order_snoc)
  next
    case False
    then have a: "assign obj w (incremented obj w) = define_property obj w (Num 1)"
      using proto np by (simp add: assign_def incremented_def look)
    have same: "map (\<lambda>k. (k, Num (count_list (ws @ [w]) k))) L = map (\<lambda>k. (k, Num (count_list ws k))) L"
      if "set L \<subseteq> set ws" for L
      using that False by (induction L) auto
    have sI: "set I \<subseteq> set ws" and sN: "set N \<subseteq> set ws"
      by (auto simp: I_def N_def set_first_encountered)
    have c1: "count_list (ws @ [w]) w = 1" using False by simp
    show ?thesis
    proof (cases "isArrayIndex w")
      case True
      have "define_property obj w (Num 1)
          = insert_index w (Num 1) (map (\<lambda>k. (k, Num (count_list ws k))) I
              @ map (\<lambda>k. (k, Num (count_list ws k))) N)"
        using True by (simp add: define_property_def obj_def eo)
      also have "\<dots> = insort_key (index_value \<circ> fst) (w, Num 1) (map (\<lambda>k. (k, Num (count_list ws k))) I)
              @ map (\<lambda>k. (k, Num (count_list ws k))) N"
        by (rule insert_index_append) (auto simp: I_def N_def)
      also have "\<dots> = insort_key (index_value \<circ> fst) (w, Num (count_list (ws @ [w]) w))
                (map (\<lambda>k. (k, Num (count_list (ws @ [w]) k))) I)
              @ map (\<lambda>k. (k, Num (count_list (ws @ [w]) k))) N"
        unfolding same [OF sI] same [OF sN] c1 ..
      also have "\<dots> = map (\<lambda>k. (k, Num (count_list (ws @ [w]) k))) (insort_key index_value w I @ N)"
        using map_insort_key [of "\<lambda>k. (k, Num (count_list (ws @ [w]) k))" index_value w I]
        by simp
      finally show ?thesis
        using True False a by (simp add: enumeration_order_snoc I_def N_def)
    next
      case nidx: False
      have "define_property obj w (Num 1)
          = map (\<lambda>k. (k, Num (count_list ws k))) (enumeration_order ws) @ [(w, Num 1)]"
        using nidx by (simp add: define_property_def obj_def)
      also have "\<dots> = map (\<lambda>k. (k, Num (count_list (ws @ [w]) k))) (enumeration_order ws @ [w])"
        using same [of "enumeration_order ws"] False by (simp add: set_enumeration_order)
      finally show ?thesis
        using nidx False a by (simp add: enumeration_order_snoc)
    qed
  qed
  with fold show ?case by simp
qed

subsection \<open>Sorting counts\<close>

lemma consistent_counts:
  "consistent SortCompare (map (\<lambda>k. (k, Num (c k))) L)"
  by (simp add: consistent_def list_all_iff SortCompare_def comparefn_def)

lemma insert_stable_counts:
  "insert_stable SortCompare (k, Num (c k)) (map (\<lambda>k. (k, Num (c k))) L)
     = map (\<lambda>k. (k, Num (c k))) (insort_key (\<lambda>w. - int (c w)) k L)"
  by (induction L) (simp_all add: SortCompare_def comparefn_def)

lemma stable_sort_counts:
  "stable_sort SortCompare (map (\<lambda>k. (k, Num (c k))) L)
     = map (\<lambda>k. (k, Num (c k))) (sort_key (\<lambda>w. - int (c w)) L)"
  by (induction L) (simp_all add: insert_stable_counts)

lemma extractKeyPoints_enumeration:
  assumes "''constructor'' \<notin> set (tokens text_in)" and "''__proto__'' \<notin> set (tokens text_in)"
  shows "extractKeyPoints text_in
           = Defined (top5 (enumeration_order (tokens text_in)) (tokens text_in))"
proof -
  have "\<forall>w \<in> set (tokens text_in). w \<notin> set Object_prototype_names"
    using tokens_not_inherited [OF assms] by blast
  then have "foldl count_word [] (split_on isWhiteSpace (toLowerCase text_in))
      = map (\<lambda>k. (k, Num (count_list (tokens text_in) k))) (enumeration_order (tokens text_in))"
    unfolding forEach_tokens tokens_def [symmetric] by (rule tally_invariant)
  then show ?thesis
    by (simp add: extractKeyPoints_def Let_def array_sort_def consistent_counts stable_sort_counts
        slice0_def top5_def take_map comp_def)
qed

lemma top5_tokens:
  "length (top5 tie_order ws) \<le> 5 \<and> set (top5 tie_order ws) \<subseteq> set tie_order"
proof -
  have "set (take 5 (sort_key (\<lambda>w. - int (count_list ws w)) tie_order))
      \<subseteq> set (sort_key (\<lambda>w. - int (count_list ws w)) tie_order)"
    by (rule set_take_subset)
  then show ?thesis by (simp add: top5_def)
qed

text \<open>
  C5, as the code has it. For every text none of whose tokens is \<^verbatim>\<open>constructor\<close> or
  \<^verbatim>\<open>__proto__\<close>, \<^verbatim>\<open>extractKeyPoints\<close> returns the (at most) 5 most frequent tokens, where the
  tokens are the lower-cased pieces between white space, stripped of non-word characters,
  without those of at most 4 characters and the stop words. The sort by descending count
  is stable, and ties are broken by the order in which the frequency object enumerates its
  property names: the tokens that are array indices in ascending numeric order, then the
  other tokens as first encountered.
\<close>

theorem extractKeyPoints_top5:
  assumes "''constructor'' \<notin> set (tokens text_in)" and "''__proto__'' \<notin> set (tokens text_in)"
  shows "extractKeyPoints text_in
           = Defined (top5 (enumeration_order (tokens text_in)) (tokens text_in))
     \<and> length (top5 (enumeration_order (tokens text_in)) (tokens text_in)) \<le> 5
     \<and> list_all (\<lambda>w. w \<in> set (tokens text_in) \<and> 4 < length w \<and> w \<notin> set stopWords)
          (top5 (enumeration_order (tokens text_in)) (tokens text_in))"
proof -
  have "set (top5 (enumeration_order (tokens text_in)) (tokens text_in)) \<subseteq> set (tokens text_in)"
    using top5_tokens [of "enumeration_order (tokens text_in)" "tokens text_in"]
    by (simp add: set_enumeration_order)
  moreover have "4 < length w \<and> w \<notin> set stopWords" if "w \<in> set (tokens text_in)" for w
    using that by (simp add: tokens_def)
  ultimately have "list_all (\<lambda>w. w \<in> set (tokens text_in) \<and> 4 < length w \<and> w \<notin> set stopWords)
      (top5 (enumeration_order (tokens text_in)) (tokens text_in))"
    unfolding list_all_iff by blast
  then show ?thesis
    using extractKeyPoints_enumeration [OF assms] top5_tokens by blast
qed

theorem extractKeyPoints_top5_witness:
  "''constructor'' \<notin> set (tokens
       ''Prices rose in 2024; prices of 10000 items rose again, and Prices of 20000 items: 10000!'')
   \<and> ''__proto__'' \<notin> set (tokens
       ''Prices rose in 2024; prices of 10000 items rose again, and Prices of 20000 items: 10000!'')
   \<and> extractKeyPoints
       ''Prices rose in 2024; prices of 10000 items rose again, and Prices of 20000 items: 10000!''
       = Defined [''prices'', ''10000'', ''items'', ''20000'', ''again'']"
proof -
  define t where
    "t = ''Prices rose in 2024; prices of 10000 items rose again, and Prices of 20000 items: 10000!''"
  have tk: "tokens t = [''prices'', ''prices'', ''10000'', ''items'', ''again'', ''prices'',
      ''20000'', ''items'', ''10000'']"
    unfolding t_def by code_simp
  have c: "''constructor'' \<notin> set (tokens t)" and p: "''__proto__'' \<notin> set (tokens t)"
    unfolding tk by simp_all
  have i: "\<not> isArrayIndex ''prices''" "isArrayIndex ''10000''" "\<not> isArrayIndex ''items''"
    "\<not> isArrayIndex ''again''" "isArrayIndex ''20000''"
    by (simp_all add: isArrayIndex_def isDigit_def index_value_def digit_value_def
        decimal_string.simps digit_char_def)
  have v: "index_value ''10000'' = 10000" "index_value ''20000'' = 20000"
    by (simp_all add: index_value_def digit_value_def)
  have eo: "enumeration_order (tokens t) = [''10000'', ''20000'', ''prices'', ''items'', ''again'']"
    unfolding tk by (simp add: enumeration_order_def first_encountered_def i v)
  have "top5 (enumeration_order (tokens t)) (tokens t)
      = [''prices'', ''10000'', ''items'', ''20000'', ''again'']"
    unfolding eo unfolding tk by (simp add: top5_def)
  with extractKeyPoints_top5 [OF c p] c p show ?thesis
    unfolding t_def by simp
qed

text \<open>
  The claim as the specification states it breaks ties by first encounter. A token that
  is an array index is enumerated before the tokens met earlier: of six tokens that occur
  once each, the number met last is returned first and the fifth token is left out.
\<close>

theorem extractKeyPoints_tie_order_counterexample:
  "extractKeyPoints ''alpha bravo charlie delta echoes 12345''
     = Defined [''12345'', ''alpha'', ''bravo'', ''charlie'', ''delta'']
   \<and> spec_keyPoints ''alpha bravo charlie delta echoes 12345''
     = [''alpha'', ''bravo'', ''charlie'', ''delta'', ''echoes'']
   \<and> extractKeyPoints ''alpha bravo charlie delta echoes 12345''
     \<noteq> Defined (spec_keyPoints ''alpha bravo charlie delta echoes 12345'')"
proof -
  have w: "split_on isWhiteSpace (toLowerCase ''alpha bravo charlie delta echoes 12345'')
      = [''alpha'', ''bravo'', ''charlie'', ''delta'', ''echoes'', ''12345'']"
    by code_simp
  have i: "\<not> isArrayIndex ''alpha''" "\<not> isArrayIndex ''bravo''" "\<not> isArrayIndex ''charlie''"
    "\<not> isArrayIndex ''delta''" "\<not> isArrayIndex ''echoes''" "isArrayIndex ''12345''"
    by (simp_all add: isArrayIndex_def isDigit_def index_value_def digit_value_def
        decimal_string.simps digit_char_def)
  have f: "foldl count_word [] [''alpha'', ''bravo'', ''charlie'', ''delta'', ''echoes'', ''12345'']
      = [(''12345'', Num 1), (''alpha'', Num 1), (''bravo'', Num 1), (''charlie'', Num 1),
         (''delta'', Num 1), (''echoes'', Num 1)]"
    by (simp add: count_word_def Let_def isWordChar_def stopWords_def assign_def incremented_def
        define_property_def Object_prototype_names_def i)
  have s: "array_sort SortCompare
        [(''12345'', Num 1), (''alpha'', Num 1), (''bravo'', Num 1), (''charlie'', Num 1),
         (''delta'', Num 1), (''echoes'', Num 1)]
      = Defined [(''12345'', Num 1), (''alpha'', Num 1), (''bravo'', Num 1), (''charlie'', Num 1),
         (''delta'', Num 1), (''echoes'', Num 1)]"
    by code_simp
  have a: "extractKeyPoints ''alpha bravo charlie delta echoes 12345''
     = Defined [''12345'', ''alpha'', ''bravo'', ''charlie'', ''delta'']"
    unfolding extractKeyPoints_def Let_def w f s by (simp add: slice0_def)
  have b: "spec_keyPoints ''alpha bravo charlie delta echoes 12345''
     = [''alpha'', ''bravo'', ''charlie'', ''delta'', ''echoes'']"
    by code_simp
  show ?thesis unfolding a b by simp
qed

end
